theory Spec2Isabelle
  imports Complex_Main
begin

section \<open>Python values, exceptions and the object store\<close>

text \<open>
  The values that travel through the JSON-RPC interface: parameters the caller hands to
  the client and replies the remote sends back. A Python float is a finite rational; a
  string is its UTF-8 byte sequence; a dict is an association list in insertion order.
\<close>

datatype pyval =
    PNone
  | PBool bool
  | PInt int
  | PFloat rat
  | PStr string
  | PList "pyval list"
  | PDict "(string \<times> pyval) list"

text \<open>Python truthiness, as \<open>if players:\<close> tests it.\<close>

fun truthy :: "pyval \<Rightarrow> bool" where
  "truthy PNone = False"
| "truthy (PBool b) = b"
| "truthy (PInt i) = (i \<noteq> 0)"
| "truthy (PFloat x) = (x \<noteq> 0)"
| "truthy (PStr s) = (s \<noteq> [])"
| "truthy (PList xs) = (xs \<noteq> [])"
| "truthy (PDict kvs) = (kvs \<noteq> [])"

text \<open>
  Exceptions of the transport library (\<open>jsonrpc_base\<close>): a \<open>TransportError\<close> carries the
  text that \<open>str(error)\<close> yields; anything else the library raises is kept by name.
\<close>

datatype lib_error =
    TransportError string
  | ProtocolError string
  | OtherLibError string

text \<open>
  What a caller of this module can see raised: the two domain errors the module defines,
  a library exception that propagates unchanged, and the built-in exceptions of the
  interpreter.
\<close>

datatype error =
    CannotConnectError
  | InvalidAuthError
  | Lib lib_error
  | AttributeError
  | TypeError
  | KeyError
  | IndexError
  | ValueError

text \<open>A remote call: the dotted method path, positional and keyword parameters.\<close>

datatype rpc = Rpc string "pyval list" "(string \<times> pyval) list"

text \<open>
  Effects on objects outside this module, in the order they happen: a request sent
  through a dispatch handle, a WebSocket handshake attempt, the closing of a duplex
  transport, the closing of an HTTP client session.
\<close>

datatype event =
    Sent nat rpc
  | WsConnect nat
  | WsClose nat
  | SessionClose nat

datatype variant = HTTP | WS

text \<open>The keyword arguments \<open>self._kwargs\<close> handed to the transport's constructor.\<close>

record kwargs =
  kw_timeout :: pyval
  kw_session :: nat
  kw_auth :: "(string \<times> string option) option"

text \<open>
  A transport object (\<open>jsonrpc_async.Server\<close> or \<open>jsonrpc_websocket.Server\<close>): the URL
  and keyword arguments it was built with, and whether its duplex connection is open
  (the library's \<open>connected\<close> property; never set for the HTTP transport).
\<close>

record server_obj =
  srv_kind :: variant
  srv_url :: string
  srv_kwargs :: kwargs
  srv_connected :: bool

text \<open>
  A \<open>KodiConnection\<close> object. \<open>cls\<close> is the subclass; \<open>server_attr\<close> is the attribute
  \<open>_http_server\<close> of the HTTP subclass and \<open>_ws_server\<close> of the WebSocket subclass.
\<close>

record connection =
  cls :: variant
  session :: "nat option"
  created_session :: bool
  conn_kwargs :: kwargs
  image_url :: string
  server_attr :: "nat option"

text \<open>
  The store: connection objects by address, transport objects by handle, the log of
  outside effects, and the next unused handle.
\<close>

record world =
  conns :: "nat \<Rightarrow> connection option"
  servers :: "nat \<Rightarrow> server_obj option"
  log :: "event list"
  next_handle :: nat

text \<open>
  The environment: what the remote answers to an awaited request, and how a handshake
  ends (\<open>None\<close> is success); both may depend on everything that happened before.
\<close>

record env =
  reply :: "event list \<Rightarrow> nat \<Rightarrow> rpc \<Rightarrow> lib_error + pyval"
  handshake :: "event list \<Rightarrow> nat \<Rightarrow> lib_error option"

type_synonym 'a result = "(error + 'a) \<times> world"

definition bind :: "'a result \<Rightarrow> ('a \<Rightarrow> world \<Rightarrow> 'b result) \<Rightarrow> 'b result" where
  "bind m f = (case m of (Inl e, w) \<Rightarrow> (Inl e, w) | (Inr v, w) \<Rightarrow> f v w)"

section \<open>Connections\<close>

text \<open>\<open>str(n)\<close> for an integer, as an f-string formats a port.\<close>

fun str_nat :: "nat \<Rightarrow> string" where
  "str_nat n =
     (if n < 10 then [''0123456789'' ! n]
      else str_nat (n div 10) @ [''0123456789'' ! (n mod 10)])"

definition str_int :: "int \<Rightarrow> string" where
  "str_int i = (if i < 0 then CHR ''-'' # str_nat (nat (- i)) else str_nat (nat i))"

text \<open>An f-string field holding an optional string: \<open>None\<close> prints as \<open>None\<close>.\<close>

definition str_opt :: "string option \<Rightarrow> string" where
  "str_opt s = (case s of None \<Rightarrow> ''None'' | Some t \<Rightarrow> t)"

definition http_protocol :: "bool \<Rightarrow> string" where
  "http_protocol ssl = (if ssl then ''https'' else ''http'')"

text \<open>
  \<open>KodiConnection.__init__\<close>: takes the supplied session or creates one (a fresh
  handle), records which, builds the keyword arguments and the image base URL. It
  returns the object without its transport, and the store after the allocation.
\<close>

definition KodiConnection_init ::
  "variant \<Rightarrow> string \<Rightarrow> int \<Rightarrow> string option \<Rightarrow> string option \<Rightarrow> bool \<Rightarrow> pyval \<Rightarrow>
   nat option \<Rightarrow> world \<Rightarrow> connection \<times> world" where
  "KodiConnection_init c host port username password ssl timeout sess w =
     (let (s, created, w1) =
            (case sess of
               None \<Rightarrow> (next_handle w, True, w\<lparr>next_handle := Suc (next_handle w)\<rparr>)
             | Some s \<Rightarrow> (s, False, w));
          kw = \<lparr>kw_timeout = timeout, kw_session = s,
                kw_auth = (case username of None \<Rightarrow> None | Some u \<Rightarrow> Some (u, password))\<rparr>;
          image_auth_string =
            (case username of None \<Rightarrow> '''' | Some u \<Rightarrow> u @ '':'' @ str_opt password @ ''@'')
      in (\<lparr>cls = c, session = Some s, created_session = created, conn_kwargs = kw,
           image_url = http_protocol ssl @ ''://'' @ image_auth_string @ host @ '':'' @
                       str_int port @ ''/image'',
           server_attr = None\<rparr>, w1))"

text \<open>Allocating a transport object and a connection object in the store.\<close>

definition new_server :: "variant \<Rightarrow> string \<Rightarrow> kwargs \<Rightarrow> world \<Rightarrow> nat \<times> world" where
  "new_server k url kw w =
     (next_handle w,
      w\<lparr>servers := (servers w)(next_handle w \<mapsto>
            \<lparr>srv_kind = k, srv_url = url, srv_kwargs = kw, srv_connected = False\<rparr>),
        next_handle := Suc (next_handle w)\<rparr>)"

definition new_conn :: "connection \<Rightarrow> world \<Rightarrow> nat \<times> world" where
  "new_conn c w =
     (next_handle w,
      w\<lparr>conns := (conns w)(next_handle w \<mapsto> c), next_handle := Suc (next_handle w)\<rparr>)"

definition KodiHTTPConnection ::
  "string \<Rightarrow> int \<Rightarrow> string option \<Rightarrow> string option \<Rightarrow> bool \<Rightarrow> pyval \<Rightarrow> nat option \<Rightarrow>
   world \<Rightarrow> nat \<times> world" where
  "KodiHTTPConnection host port username password ssl timeout sess w =
     (let (c, w1) = KodiConnection_init HTTP host port username password ssl timeout sess w;
          http_url = http_protocol ssl @ ''://'' @ host @ '':'' @ str_int port @ ''/jsonrpc'';
          (h, w2) = new_server HTTP http_url (conn_kwargs c) w1
      in new_conn (c\<lparr>server_attr := Some h\<rparr>) w2)"

definition KodiWSConnection ::
  "string \<Rightarrow> int \<Rightarrow> int \<Rightarrow> string option \<Rightarrow> string option \<Rightarrow> bool \<Rightarrow> pyval \<Rightarrow>
   nat option \<Rightarrow> world \<Rightarrow> nat \<times> world" where
  "KodiWSConnection host port ws_port username password ssl timeout sess w =
     (let (c, w1) = KodiConnection_init WS host port username password ssl timeout sess w;
          ws_protocol = (if ssl then ''wss'' else ''ws'');
          ws_url = ws_protocol @ ''://'' @ host @ '':'' @ str_int ws_port @ ''/jsonrpc'';
          (h, w2) = new_server WS ws_url (conn_kwargs c) w1
      in new_conn (c\<lparr>server_attr := Some h\<rparr>) w2)"

text \<open>The factory: \<open>ws_port is None\<close> picks the HTTP subclass, anything else the WebSocket one.\<close>

definition get_kodi_connection ::
  "string \<Rightarrow> int \<Rightarrow> int option \<Rightarrow> string option \<Rightarrow> string option \<Rightarrow> bool \<Rightarrow> pyval \<Rightarrow>
   nat option \<Rightarrow> world \<Rightarrow> nat \<times> world" where
  "get_kodi_connection host port ws_port username password ssl timeout sess w =
     (case ws_port of
        None \<Rightarrow> KodiHTTPConnection host port username password ssl timeout sess w
      | Some p \<Rightarrow> KodiWSConnection host port p username password ssl timeout sess w)"

text \<open>The class of the object at an address, when there is one.\<close>

definition class_of :: "world \<Rightarrow> nat \<Rightarrow> variant option" where
  "class_of w a = map_option cls (conns w a)"

text \<open>The store before any object exists.\<close>

definition empty_world :: world where
  "empty_world = \<lparr>conns = Map.empty, servers = Map.empty, log = [], next_handle = 0\<rparr>"

subsection \<open>Properties and lifecycle\<close>


definition can_subscribe :: "connection \<Rightarrow> bool" where
  "can_subscribe c = (cls c = WS)"

text \<open>
  \<open>connected\<close>: constantly true for HTTP; for WebSocket
  \<open>self._ws_server and self._ws_server.connected\<close>, which is falsy when the attribute
  has been cleared.
\<close>

definition connected :: "world \<Rightarrow> connection \<Rightarrow> bool" where
  "connected w c =
     (case cls c of
        HTTP \<Rightarrow> True
      | WS \<Rightarrow> (case server_attr c of
                 None \<Rightarrow> False
               | Some h \<Rightarrow> (case servers w h of None \<Rightarrow> False | Some s \<Rightarrow> srv_connected s)))"

definition connected_at :: "world \<Rightarrow> nat \<Rightarrow> bool" where
  "connected_at w a = (case conns w a of None \<Rightarrow> False | Some c \<Rightarrow> connected w c)"

text \<open>
  The transport's own \<open>ws_connect\<close>: the attempt is logged, the environment decides how it
  ends, and only success opens the duplex connection.
\<close>

definition ws_connect :: "env \<Rightarrow> nat \<Rightarrow> world \<Rightarrow> lib_error option \<times> world" where
  "ws_connect ev h w =
     (let r = handshake ev (log w) h;
          w1 = w\<lparr>log := log w @ [WsConnect h]\<rparr>
      in case r of
           Some e \<Rightarrow> (Some e, w1)
         | None \<Rightarrow>
             (None, w1\<lparr>servers := (\<lambda>k. if k = h
                          then map_option (\<lambda>s. s\<lparr>srv_connected := True\<rparr>) (servers w1 k)
                          else servers w1 k)\<rparr>))"

text \<open>The transport's own \<open>close\<close>: the duplex connection is closed and reported dead.\<close>

definition ws_close :: "nat \<Rightarrow> world \<Rightarrow> world" where
  "ws_close h w =
     w\<lparr>servers := (\<lambda>k. if k = h
                     then map_option (\<lambda>s. s\<lparr>srv_connected := False\<rparr>) (servers w k)
                     else servers w k),
       log := log w @ [WsClose h]\<rparr>"

text \<open>
  \<open>connect\<close>: nothing for HTTP. For WebSocket: return at once when connected; otherwise
  run the handshake, turning a \<open>TransportError\<close> into \<open>CannotConnectError\<close> and letting
  any other exception through. With the attribute cleared the call is on \<open>None\<close>.
\<close>

definition connect :: "env \<Rightarrow> nat \<Rightarrow> world \<Rightarrow> unit result" where
  "connect ev a w =
     (case conns w a of
        None \<Rightarrow> (Inl AttributeError, w)
      | Some c \<Rightarrow>
          (case cls c of
             HTTP \<Rightarrow> (Inr (), w)
           | WS \<Rightarrow>
               if connected w c then (Inr (), w)
               else (case server_attr c of
                       None \<Rightarrow> (Inl AttributeError, w)
                     | Some h \<Rightarrow>
                         (case ws_connect ev h w of
                            (None, w1) \<Rightarrow> (Inr (), w1)
                          | (Some (TransportError s), w1) \<Rightarrow> (Inl CannotConnectError, w1)
                          | (Some e, w1) \<Rightarrow> (Inl (Lib e), w1)))))"

text \<open>
  \<open>KodiConnection.close\<close>: the session is closed only when this object created it and
  still holds it; both attributes are then reset.
\<close>

definition close_base :: "nat \<Rightarrow> connection \<Rightarrow> world \<Rightarrow> world" where
  "close_base a c w =
     (case session c of
        Some s \<Rightarrow>
          if created_session c
          then w\<lparr>conns := (conns w)(a \<mapsto> c\<lparr>session := None, created_session := False\<rparr>),
                 log := log w @ [SessionClose s]\<rparr>
          else w
      | None \<Rightarrow> w)"

text \<open>
  \<open>close\<close> of the subclasses. HTTP clears the attribute and calls the base class.
  WebSocket first calls \<open>self._ws_server.close()\<close>, which is a call on \<open>None\<close> once the
  attribute has been cleared, then clears it and calls the base class.
\<close>

definition close :: "nat \<Rightarrow> world \<Rightarrow> unit result" where
  "close a w =
     (case conns w a of
        None \<Rightarrow> (Inl AttributeError, w)
      | Some c \<Rightarrow>
          (case cls c of
             HTTP \<Rightarrow>
               (let c1 = c\<lparr>server_attr := None\<rparr>;
                    w1 = w\<lparr>conns := (conns w)(a \<mapsto> c1)\<rparr>
                in (Inr (), close_base a c1 w1))
           | WS \<Rightarrow>
               (case server_attr c of
                  None \<Rightarrow> (Inl AttributeError, w)
                | Some h \<Rightarrow>
                    (let w1 = ws_close h w;
                         c1 = c\<lparr>server_attr := None\<rparr>;
                         w2 = w1\<lparr>conns := (conns w1)(a \<mapsto> c1)\<rparr>
                     in (Inr (), close_base a c1 w2)))))"

text \<open>\<open>close\<close> called \<open>n\<close> times in a row, whatever each call raises.\<close>

fun close_n :: "nat \<Rightarrow> nat \<Rightarrow> world \<Rightarrow> world" where
  "close_n 0 a w = w"
| "close_n (Suc n) a w = close_n n a (snd (close a w))"

section \<open>The high-level client\<close>

text \<open>
  A \<open>Kodi\<close> object: the address of its connection, and the value the connection's
  \<open>server\<close> property had when the client was built.
\<close>

record kodi =
  conn :: nat
  server :: "nat option"


text \<open>
  Calling a method of the dispatch handle builds the request and returns an awaitable;
  nothing is sent until it is awaited. On a cleared handle the attribute lookup fails.
\<close>

datatype coroutine = Coroutine nat rpc

definition method_call :: "nat option \<Rightarrow> rpc \<Rightarrow> error + coroutine" where
  "method_call srv r = (case srv of None \<Rightarrow> Inl AttributeError | Some h \<Rightarrow> Inr (Coroutine h r))"

fun await :: "env \<Rightarrow> coroutine \<Rightarrow> world \<Rightarrow> pyval result" where
  "await ev (Coroutine h r) w =
     (case reply ev (log w) h r of
        Inl e \<Rightarrow> (Inl (Lib e), w\<lparr>log := log w @ [Sent h r]\<rparr>)
      | Inr v \<Rightarrow> (Inr v, w\<lparr>log := log w @ [Sent h r]\<rparr>))"

text \<open>\<open>await self._server.M(args)\<close>.\<close>

definition invoke :: "env \<Rightarrow> nat option \<Rightarrow> rpc \<Rightarrow> world \<Rightarrow> pyval result" where
  "invoke ev srv r w =
     (case method_call srv r of Inl e \<Rightarrow> (Inl e, w) | Inr co \<Rightarrow> await ev co w)"

text \<open>Subscripting: \<open>v[key]\<close> for a string key and \<open>v[0]\<close>.\<close>

fun getitem :: "pyval \<Rightarrow> string \<Rightarrow> error + pyval" where
  "getitem (PDict kvs) key = (case map_of kvs key of None \<Rightarrow> Inl KeyError | Some v \<Rightarrow> Inr v)"
| "getitem v key = Inl TypeError"

text \<open>
  \<open>players[0]["playerid"]\<close>. The first character of a string is a string again, so the
  second subscript fails on it.
\<close>

fun first_playerid :: "pyval \<Rightarrow> error + pyval" where
  "first_playerid (PList []) = Inl IndexError"
| "first_playerid (PList (p # ps)) = getitem p ''playerid''"
| "first_playerid (PStr []) = Inl IndexError"
| "first_playerid (PStr (c # cs)) = Inl TypeError"
| "first_playerid (PDict kvs) = Inl KeyError"
| "first_playerid v = Inl TypeError"

text \<open>Discarding a reply: the method returns \<open>None\<close>.\<close>

definition discard :: "pyval result \<Rightarrow> pyval result" where
  "discard m = bind m (\<lambda>v w. (Inr PNone, w))"

text \<open>Lifting a pure step that may raise.\<close>

definition lift :: "error + 'a \<Rightarrow> world \<Rightarrow> 'a result" where
  "lift x w = (x, w)"

text \<open>\<open>needle in haystack\<close> on strings.\<close>

fun starts_with :: "string \<Rightarrow> string \<Rightarrow> bool" where
  "starts_with s [] = True"
| "starts_with [] (p # ps) = False"
| "starts_with (c # cs) (p # ps) = (c = p \<and> starts_with cs ps)"

fun contains :: "string \<Rightarrow> string \<Rightarrow> bool" where
  "contains [] sub = (sub = [])"
| "contains (c # cs) sub = (starts_with (c # cs) sub \<or> contains cs sub)"

definition ping :: "env \<Rightarrow> kodi \<Rightarrow> world \<Rightarrow> pyval result" where
  "ping ev k w =
     (case method_call (server k) (Rpc ''JSONRPC.Ping'' [] []) of
        Inl e \<Rightarrow> (Inl e, w)
      | Inr co \<Rightarrow>
          (case await ev co w of
             (Inr response, w1) \<Rightarrow> (Inr (PBool (response = PStr ''pong'')), w1)
           | (Inl (Lib (TransportError msg)), w1) \<Rightarrow>
               if contains msg ''401'' then (Inl InvalidAuthError, w1)
               else (Inl CannotConnectError, w1)
           | (Inl e, w1) \<Rightarrow> (Inl e, w1)))"

definition get_application_properties :: "env \<Rightarrow> kodi \<Rightarrow> pyval \<Rightarrow> world \<Rightarrow> pyval result" where
  "get_application_properties ev k properties w =
     invoke ev (server k) (Rpc ''Application.GetProperties'' [properties] []) w"

definition get_player_properties ::
  "env \<Rightarrow> kodi \<Rightarrow> pyval \<Rightarrow> pyval \<Rightarrow> world \<Rightarrow> pyval result" where
  "get_player_properties ev k player properties w =
     (case method_call (server k) (Rpc ''Player.GetProperties'' [] []) of
        Inl e \<Rightarrow> (Inl e, w)
      | Inr _ \<Rightarrow>
          bind (lift (getitem player ''playerid'') w)
            (\<lambda>pid. invoke ev (server k) (Rpc ''Player.GetProperties'' [pid, properties] [])))"

definition get_playing_item_properties ::
  "env \<Rightarrow> kodi \<Rightarrow> pyval \<Rightarrow> pyval \<Rightarrow> world \<Rightarrow> pyval result" where
  "get_playing_item_properties ev k player properties w =
     (case method_call (server k) (Rpc ''Player.GetItem'' [] []) of
        Inl e \<Rightarrow> (Inl e, w)
      | Inr _ \<Rightarrow>
          bind (lift (getitem player ''playerid'') w)
            (\<lambda>pid w1. bind (invoke ev (server k) (Rpc ''Player.GetItem'' [pid, properties] []) w1)
               (\<lambda>v. lift (getitem v ''item''))))"

definition volume_up :: "env \<Rightarrow> kodi \<Rightarrow> world \<Rightarrow> pyval result" where
  "volume_up ev k w =
     discard (invoke ev (server k) (Rpc ''Input.ExecuteAction'' [PStr ''volumeup''] []) w)"

definition volume_down :: "env \<Rightarrow> kodi \<Rightarrow> world \<Rightarrow> pyval result" where
  "volume_down ev k w =
     discard (invoke ev (server k) (Rpc ''Input.ExecuteAction'' [PStr ''volumedown''] []) w)"

definition set_volume_level :: "env \<Rightarrow> kodi \<Rightarrow> pyval \<Rightarrow> world \<Rightarrow> pyval result" where
  "set_volume_level ev k volume w =
     discard (invoke ev (server k) (Rpc ''Application.SetVolume'' [volume] []) w)"

definition mute :: "env \<Rightarrow> kodi \<Rightarrow> pyval \<Rightarrow> world \<Rightarrow> pyval result" where
  "mute ev k m w = discard (invoke ev (server k) (Rpc ''Application.SetMute'' [m] []) w)"

definition get_players :: "env \<Rightarrow> kodi \<Rightarrow> world \<Rightarrow> pyval result" where
  "get_players ev k w = invoke ev (server k) (Rpc ''Player.GetActivePlayers'' [] []) w"

text \<open>
  The pattern shared by the player commands: with a truthy player list, the first
  player's id is looked up and the command is sent; otherwise nothing happens.
\<close>

definition with_first_player ::
  "pyval \<Rightarrow> (pyval \<Rightarrow> world \<Rightarrow> pyval result) \<Rightarrow> world \<Rightarrow> pyval result" where
  "with_first_player players f w =
     (if truthy players then bind (lift (first_playerid players) w) f else (Inr PNone, w))"

definition set_play_state :: "env \<Rightarrow> kodi \<Rightarrow> pyval \<Rightarrow> world \<Rightarrow> pyval result" where
  "set_play_state ev k state w =
     bind (get_players ev k w)
       (\<lambda>players. with_first_player players
          (\<lambda>pid w1. discard (invoke ev (server k) (Rpc ''Player.PlayPause'' [pid, state] []) w1)))"

definition play_pause :: "env \<Rightarrow> kodi \<Rightarrow> world \<Rightarrow> pyval result" where
  "play_pause ev k w = set_play_state ev k (PStr ''toggle'') w"

definition play :: "env \<Rightarrow> kodi \<Rightarrow> world \<Rightarrow> pyval result" where
  "play ev k w = set_play_state ev k (PBool True) w"

definition pause :: "env \<Rightarrow> kodi \<Rightarrow> world \<Rightarrow> pyval result" where
  "pause ev k w = set_play_state ev k (PBool False) w"

definition stop :: "env \<Rightarrow> kodi \<Rightarrow> world \<Rightarrow> pyval result" where
  "stop ev k w =
     bind (get_players ev k w)
       (\<lambda>players. with_first_player players
          (\<lambda>pid w1. discard (invoke ev (server k) (Rpc ''Player.Stop'' [pid] []) w1)))"

definition goto :: "env \<Rightarrow> kodi \<Rightarrow> string \<Rightarrow> world \<Rightarrow> pyval result" where
  "goto ev k direction w =
     bind (get_players ev k w)
       (\<lambda>players. with_first_player players
          (\<lambda>pid w1.
             bind (if direction = ''previous''
                   then invoke ev (server k) (Rpc ''Player.Seek'' [pid, PInt 0] []) w1
                   else (Inr PNone, w1))
               (\<lambda>_ w2. discard
                  (invoke ev (server k) (Rpc ''Player.GoTo'' [pid, PStr direction] []) w2))))"

definition next_track :: "env \<Rightarrow> kodi \<Rightarrow> world \<Rightarrow> pyval result" where
  "next_track ev k w = goto ev k ''next'' w"

definition previous_track :: "env \<Rightarrow> kodi \<Rightarrow> world \<Rightarrow> pyval result" where
  "previous_track ev k w = goto ev k ''previous'' w"

subsection \<open>Float arithmetic of the seek position\<close>

text \<open>
  A finite Python float is a rational with a 53-bit significand, and every float
  operation yields the exact result rounded to the nearest such number, ties to even.
  The exponent is unbounded here: overflow and gradual underflow are not modelled.
  \<open>ilog2 x\<close> is the binary exponent of a positive \<open>x\<close>: \<open>2 powi e \<le> x < 2 powi (e + 1)\<close>.
\<close>

fun bit_length :: "nat \<Rightarrow> nat" where
  "bit_length n = (if n = 0 then 0 else Suc (bit_length (n div 2)))"

definition ilog2 :: "rat \<Rightarrow> int" where
  "ilog2 x =
     (if 1 \<le> x then int (bit_length (nat \<lfloor>x\<rfloor>)) - 1
      else - int (bit_length (nat (\<lceil>1 / x\<rceil> - 1))))"

definition round_half_even :: "rat \<Rightarrow> int" where
  "round_half_even y =
     (let f = \<lfloor>y\<rfloor>; d = y - of_int f
      in if d < 1 / 2 then f
         else if 1 / 2 < d then f + 1
         else if even f then f else f + 1)"

definition rnd :: "rat \<Rightarrow> rat" where
  "rnd x =
     (if x = 0 then 0
      else (let u = 2 powi (ilog2 \<bar>x\<bar> - 52)
            in of_int (round_half_even (x / u)) * u))"

text \<open>A rational is a float value when rounding leaves it alone.\<close>

definition representable :: "rat \<Rightarrow> bool" where
  "representable x = (rnd x = x)"

text \<open>\<open>int(x)\<close> truncates towards zero.\<close>

definition trunc :: "rat \<Rightarrow> int" where
  "trunc x = (if 0 \<le> x then \<lfloor>x\<rfloor> else \<lceil>x\<rceil>)"

text \<open>
  \<open>x % w\<close> on floats: the exact C \<open>fmod\<close>, which has the sign of \<open>x\<close>, moved by \<open>w\<close> (one
  rounded addition) when its sign differs from that of \<open>w\<close>.
\<close>

definition fmod :: "rat \<Rightarrow> rat \<Rightarrow> rat" where
  "fmod x w = x - of_int (trunc (x / w)) * w"

definition float_mod :: "rat \<Rightarrow> rat \<Rightarrow> rat" where
  "float_mod x w =
     (let m = fmod x w
      in if m \<noteq> 0 \<and> ((w < 0) \<noteq> (m < 0)) then rnd (m + w) else m)"

text \<open>
  The time object of \<open>media_seek\<close>, field by field as the source computes it: the
  milliseconds from the fractional part, then the position truncated to an integer, its
  remainder by 60, and two true divisions by 60 (each a rounded float division).
\<close>

record seek_time =
  milliseconds :: int
  seconds :: int
  minutes :: int
  hours :: int

definition seek_time_of :: "rat \<Rightarrow> seek_time" where
  "seek_time_of position =
     (let ms = trunc (rnd (float_mod position 1 * 1000));
          position1 = trunc position;
          s = position1 mod 60;
          position2 = rnd (of_int position1 / 60);
          m = trunc (float_mod position2 60);
          position3 = rnd (position2 / 60);
          h = trunc position3
      in \<lparr>milliseconds = ms, seconds = s, minutes = m, hours = h\<rparr>)"

definition time_dict :: "seek_time \<Rightarrow> pyval" where
  "time_dict t =
     PDict [(''milliseconds'', PInt (milliseconds t)), (''seconds'', PInt (seconds t)),
            (''minutes'', PInt (minutes t)), (''hours'', PInt (hours t))]"

definition media_seek :: "env \<Rightarrow> kodi \<Rightarrow> rat \<Rightarrow> world \<Rightarrow> pyval result" where
  "media_seek ev k position w =
     bind (get_players ev k w)
       (\<lambda>players w1.
          (let time = time_dict (seek_time_of position)
           in with_first_player players
                (\<lambda>pid w2. discard (invoke ev (server k) (Rpc ''Player.Seek'' [pid, time] []) w2))
                w1))"

subsection \<open>Playback sources, shuffle, playlists, library\<close>

definition play_item :: "env \<Rightarrow> kodi \<Rightarrow> pyval \<Rightarrow> world \<Rightarrow> pyval result" where
  "play_item ev k item w =
     discard (invoke ev (server k) (Rpc ''Player.Open'' [PDict [(''item'', item)]] []) w)"

definition play_channel :: "env \<Rightarrow> kodi \<Rightarrow> pyval \<Rightarrow> world \<Rightarrow> pyval result" where
  "play_channel ev k channel_id w = play_item ev k (PDict [(''channelid'', channel_id)]) w"

definition play_playlist :: "env \<Rightarrow> kodi \<Rightarrow> pyval \<Rightarrow> world \<Rightarrow> pyval result" where
  "play_playlist ev k playlist_id w = play_item ev k (PDict [(''playlistid'', playlist_id)]) w"

definition play_directory :: "env \<Rightarrow> kodi \<Rightarrow> pyval \<Rightarrow> world \<Rightarrow> pyval result" where
  "play_directory ev k directory w = play_item ev k (PDict [(''directory'', directory)]) w"

definition play_file :: "env \<Rightarrow> kodi \<Rightarrow> pyval \<Rightarrow> world \<Rightarrow> pyval result" where
  "play_file ev k file w = play_item ev k (PDict [(''file'', file)]) w"

definition set_shuffle :: "env \<Rightarrow> kodi \<Rightarrow> pyval \<Rightarrow> world \<Rightarrow> pyval result" where
  "set_shuffle ev k shuffle w =
     bind (get_players ev k w)
       (\<lambda>players. with_first_player players
          (\<lambda>pid w1. discard
             (invoke ev (server k)
                (Rpc ''Player.SetShuffle'' [PDict [(''playerid'', pid), (''shuffle'', shuffle)]] [])
                w1)))"

definition call_method ::
  "env \<Rightarrow> kodi \<Rightarrow> string \<Rightarrow> (string \<times> pyval) list \<Rightarrow> world \<Rightarrow> pyval result" where
  "call_method ev k method kws w = invoke ev (server k) (Rpc method [] kws) w"

text \<open>
  \<open>_add_item_to_playlist\<close> calls \<open>self._server.Playlist.Add(params)\<close> and drops the
  awaitable it gets: the statement has no \<open>await\<close>.
\<close>

definition add_item_to_playlist :: "env \<Rightarrow> kodi \<Rightarrow> pyval \<Rightarrow> world \<Rightarrow> pyval result" where
  "add_item_to_playlist ev k item w =
     (let params = PDict [(''playlistid'', PInt 0), (''item'', item)]
      in case method_call (server k) (Rpc ''Playlist.Add'' [params] []) of
           Inl e \<Rightarrow> (Inl e, w)
         | Inr co \<Rightarrow> (Inr PNone, w))"

definition add_song_to_playlist :: "env \<Rightarrow> kodi \<Rightarrow> pyval \<Rightarrow> world \<Rightarrow> pyval result" where
  "add_song_to_playlist ev k song_id w =
     add_item_to_playlist ev k (PDict [(''songid'', song_id)]) w"

definition add_album_to_playlist :: "env \<Rightarrow> kodi \<Rightarrow> pyval \<Rightarrow> world \<Rightarrow> pyval result" where
  "add_album_to_playlist ev k album_id w =
     add_item_to_playlist ev k (PDict [(''albumid'', album_id)]) w"

definition clear_playlist :: "env \<Rightarrow> kodi \<Rightarrow> world \<Rightarrow> pyval result" where
  "clear_playlist ev k w =
     discard (invoke ev (server k)
                (Rpc ''Playlist.Clear'' [PDict [(''playlistid'', PInt 0)]] []) w)"

definition get_artists :: "env \<Rightarrow> kodi \<Rightarrow> world \<Rightarrow> pyval result" where
  "get_artists ev k w = invoke ev (server k) (Rpc ''AudioLibrary.GetArtists'' [] []) w"

definition artist_filter :: "int \<Rightarrow> pyval" where
  "artist_filter artist_id = PDict [(''filter'', PDict [(''artistid'', PInt artist_id)])]"

definition get_albums :: "env \<Rightarrow> kodi \<Rightarrow> int option \<Rightarrow> world \<Rightarrow> pyval result" where
  "get_albums ev k artist_id w =
     (case artist_id of
        None \<Rightarrow> invoke ev (server k) (Rpc ''AudioLibrary.GetAlbums'' [] []) w
      | Some i \<Rightarrow> invoke ev (server k) (Rpc ''AudioLibrary.GetAlbums'' [artist_filter i] []) w)"

definition get_songs :: "env \<Rightarrow> kodi \<Rightarrow> int option \<Rightarrow> world \<Rightarrow> pyval result" where
  "get_songs ev k artist_id w =
     (case artist_id of
        None \<Rightarrow> invoke ev (server k) (Rpc ''AudioLibrary.GetSongs'' [] []) w
      | Some i \<Rightarrow> invoke ev (server k) (Rpc ''AudioLibrary.GetSongs'' [artist_filter i] []) w)"

definition send_notification ::
  "env \<Rightarrow> kodi \<Rightarrow> pyval \<Rightarrow> pyval \<Rightarrow> pyval \<Rightarrow> pyval \<Rightarrow> world \<Rightarrow> pyval result" where
  "send_notification ev k title message icon displaytime w =
     discard (invoke ev (server k)
                (Rpc ''GUI.ShowNotification'' [title, message, icon, displaytime] []) w)"

section \<open>Thumbnail URLs\<close>

text \<open>
  The scheme that \<open>urllib.parse.urlparse\<close> reports, following the steps of the standard
  library's \<open>urlsplit\<close>: leading control characters and spaces are stripped, tab, CR and
  LF are removed, and the text before the first colon is the scheme (in lower case)
  when it starts with an ASCII letter and consists of scheme characters. A netloc with
  one kind of square bracket only raises \<open>ValueError\<close>; the library's further validation
  of a bracketed or non-ASCII netloc is the parameter \<open>netloc_valid\<close>.
\<close>

definition is_alpha :: "char \<Rightarrow> bool" where
  "is_alpha c = (c \<in> set ''abcdefghijklmnopqrstuvwxyzABCDEFGHIJKLMNOPQRSTUVWXYZ'')"

definition scheme_chars :: "char set" where
  "scheme_chars =
     set ''abcdefghijklmnopqrstuvwxyzABCDEFGHIJKLMNOPQRSTUVWXYZ0123456789+-.''"

definition lower_char :: "char \<Rightarrow> char" where
  "lower_char c =
     (case map_of (zip ''ABCDEFGHIJKLMNOPQRSTUVWXYZ'' ''abcdefghijklmnopqrstuvwxyz'') c of
        None \<Rightarrow> c
      | Some d \<Rightarrow> d)"

definition is_ascii :: "char \<Rightarrow> bool" where
  "is_ascii c = ((of_char c :: nat) < 128)"

definition strip_url :: "string \<Rightarrow> string" where
  "strip_url url =
     filter (\<lambda>c. c \<notin> {CHR 0x09, CHR 0x0D, CHR 0x0A})
       (dropWhile (\<lambda>c. (of_char c :: nat) \<le> 32) url)"

text \<open>The scheme and what follows the colon; an empty scheme leaves the text whole.\<close>

definition split_scheme :: "string \<Rightarrow> string \<times> string" where
  "split_scheme url =
     (let pre = takeWhile (\<lambda>c. c \<noteq> CHR '':'') url
      in if length pre < length url \<and> pre \<noteq> [] \<and> is_alpha (hd pre) \<and> set pre \<subseteq> scheme_chars
         then (map lower_char pre, drop (Suc (length pre)) url)
         else ([], url))"

definition netloc_of :: "string \<Rightarrow> string" where
  "netloc_of rest =
     (if take 2 rest = ''//''
      then takeWhile (\<lambda>c. c \<notin> {CHR ''/'', CHR ''?'', CHR ''#''}) (drop 2 rest)
      else [])"

definition urlparse_scheme :: "(string \<Rightarrow> bool) \<Rightarrow> string \<Rightarrow> error + string" where
  "urlparse_scheme netloc_valid url =
     (let (scheme, rest) = split_scheme (strip_url url);
          netloc = netloc_of rest;
          lb = CHR ''['' \<in> set netloc;
          rb = CHR '']'' \<in> set netloc
      in if lb \<noteq> rb then Inl ValueError
         else if ((lb \<and> rb) \<or> \<not> list_all is_ascii netloc) \<and> \<not> netloc_valid netloc
         then Inl ValueError
         else Inr scheme)"

text \<open>
  \<open>urllib.parse.quote_plus(s)\<close> with its default \<open>safe=''\<close>: without a space in \<open>s\<close> it is
  \<open>quote(s, '')\<close>; otherwise \<open>quote(s, ' ')\<close> with every space then replaced by \<open>+\<close>.
  \<open>quote\<close> keeps the always-safe bytes and those of \<open>safe\<close>, and writes any other byte as
  \<open>%XX\<close> in upper-case hexadecimal.
\<close>

definition always_safe :: "char set" where
  "always_safe =
     set ''ABCDEFGHIJKLMNOPQRSTUVWXYZabcdefghijklmnopqrstuvwxyz0123456789_.-~''"

definition hex_digit :: "nat \<Rightarrow> char" where
  "hex_digit n = ''0123456789ABCDEF'' ! n"

definition pct :: "char \<Rightarrow> string" where
  "pct c = [CHR ''%'', hex_digit (of_char c div 16), hex_digit (of_char c mod 16)]"

definition quote :: "string \<Rightarrow> string \<Rightarrow> string" where
  "quote s safe = concat (map (\<lambda>c. if c \<in> always_safe \<or> c \<in> set safe then [c] else pct c) s)"

definition quote_plus :: "string \<Rightarrow> string" where
  "quote_plus s =
     (if CHR '' '' \<notin> set s then quote s []
      else map (\<lambda>c. if c = CHR '' '' then CHR ''+'' else c) (quote s '' ''))"

text \<open>\<open>KodiConnection.thumbnail_url\<close>; falling off the end of the method returns \<open>None\<close>.\<close>

definition thumbnail_url ::
  "(string \<Rightarrow> bool) \<Rightarrow> connection \<Rightarrow> string option \<Rightarrow> error + string option" where
  "thumbnail_url netloc_valid c thumbnail =
     (case thumbnail of
        None \<Rightarrow> Inr None
      | Some t \<Rightarrow>
          (case urlparse_scheme netloc_valid t of
             Inl e \<Rightarrow> Inl e
           | Inr scheme \<Rightarrow>
               if scheme = ''image'' then Inr (Some (image_url c @ ''/'' @ quote_plus t))
               else Inr None))"


section \<open>The client's operations as one interpreter\<close>

datatype operation =
    Ping
  | GetApplicationProperties pyval
  | GetPlayerProperties pyval pyval
  | GetPlayingItemProperties pyval pyval
  | VolumeUp
  | VolumeDown
  | SetVolumeLevel pyval
  | Mute pyval
  | PlayPause
  | Play
  | Pause
  | Stop
  | NextTrack
  | PreviousTrack
  | MediaSeek rat
  | PlayChannel pyval
  | PlayPlaylist pyval
  | PlayDirectory pyval
  | PlayFile pyval
  | SetShuffle pyval
  | CallMethod string "(string \<times> pyval) list"
  | AddSongToPlaylist pyval
  | AddAlbumToPlaylist pyval
  | ClearPlaylist
  | GetArtists
  | GetAlbums "int option"
  | GetSongs "int option"
  | GetPlayers
  | SendNotification pyval pyval pyval pyval

fun run :: "env \<Rightarrow> kodi \<Rightarrow> operation \<Rightarrow> world \<Rightarrow> pyval result" where
  "run ev k Ping w = ping ev k w"
| "run ev k (GetApplicationProperties ps) w = get_application_properties ev k ps w"
| "run ev k (GetPlayerProperties p ps) w = get_player_properties ev k p ps w"
| "run ev k (GetPlayingItemProperties p ps) w = get_playing_item_properties ev k p ps w"
| "run ev k VolumeUp w = volume_up ev k w"
| "run ev k VolumeDown w = volume_down ev k w"
| "run ev k (SetVolumeLevel v) w = set_volume_level ev k v w"
| "run ev k (Mute m) w = mute ev k m w"
| "run ev k PlayPause w = play_pause ev k w"
| "run ev k Play w = play ev k w"
| "run ev k Pause w = pause ev k w"
| "run ev k Stop w = stop ev k w"
| "run ev k NextTrack w = next_track ev k w"
| "run ev k PreviousTrack w = previous_track ev k w"
| "run ev k (MediaSeek p) w = media_seek ev k p w"
| "run ev k (PlayChannel x) w = play_channel ev k x w"
| "run ev k (PlayPlaylist x) w = play_playlist ev k x w"
| "run ev k (PlayDirectory x) w = play_directory ev k x w"
| "run ev k (PlayFile x) w = play_file ev k x w"
| "run ev k (SetShuffle x) w = set_shuffle ev k x w"
| "run ev k (CallMethod m kws) w = call_method ev k m kws w"
| "run ev k (AddSongToPlaylist x) w = add_song_to_playlist ev k x w"
| "run ev k (AddAlbumToPlaylist x) w = add_album_to_playlist ev k x w"
| "run ev k ClearPlaylist w = clear_playlist ev k w"
| "run ev k GetArtists w = get_artists ev k w"
| "run ev k (GetAlbums a) w = get_albums ev k a w"
| "run ev k (GetSongs a) w = get_songs ev k a w"
| "run ev k GetPlayers w = get_players ev k w"
| "run ev k (SendNotification t m i d) w = send_notification ev k t m i d w"

section \<open>Observations on the log\<close>

text \<open>The sessions closed, in order.\<close>

fun session_closes :: "event list \<Rightarrow> nat list" where
  "session_closes [] = []"
| "session_closes (SessionClose s # es) = s # session_closes es"
| "session_closes (e # es) = session_closes es"

text \<open>The events an operation added to the log.\<close>

definition new_events :: "world \<Rightarrow> world \<Rightarrow> event list" where
  "new_events w w' = drop (length (log w)) (log w')"


text \<open>A remote that answers every request with \<open>v\<close> and accepts every handshake.\<close>

definition answering :: "pyval \<Rightarrow> env" where
  "answering v = \<lparr>reply = (\<lambda>evs h r. Inr v), handshake = (\<lambda>evs h. None)\<rparr>"

text \<open>A remote that fails every request and every handshake with a transport error.\<close>

definition failing :: "string \<Rightarrow> env" where
  "failing msg =
     \<lparr>reply = (\<lambda>evs h r. Inl (TransportError msg)),
      handshake = (\<lambda>evs h. Some (TransportError msg))\<rparr>"

text \<open>
  A remote with no active player that fails every other request with a transport error.
\<close>

definition no_players_else_failing :: env where
  "no_players_else_failing =
     \<lparr>reply = (\<lambda>evs h r. if r = Rpc ''Player.GetActivePlayers'' [] [] then Inr (PList [])
                           else Inl (TransportError ''Error calling method'')),
      handshake = (\<lambda>evs h. None)\<rparr>"

text \<open>
  Connections built in the empty store: a WebSocket one and an HTTP one that create
  their session, and one of each kind that borrow session 7.
\<close>

definition ws_example :: "nat \<times> world" where
  "ws_example =
     get_kodi_connection ''kodi'' 8080 (Some 9090) None None False (PInt 5) None empty_world"

definition http_example :: "nat \<times> world" where
  "http_example =
     get_kodi_connection ''kodi'' 8080 None None None False (PInt 5) None empty_world"

definition ws_borrowing :: "nat \<times> world" where
  "ws_borrowing =
     get_kodi_connection ''kodi'' 8080 (Some 9090) None None False (PInt 5) (Some 7) empty_world"

definition http_borrowing :: "nat \<times> world" where
  "http_borrowing =
     get_kodi_connection ''kodi'' 8080 None None None False (PInt 5) (Some 7) empty_world"

text \<open>The reserved characters of a URL (RFC 3986: gen-delims and sub-delims).\<close>

definition reserved :: "char set" where
  "reserved = set '':/?#[]@!$&()*+,;='' \<union> {CHR 0x27}"

text \<open>What \<open>quote_plus\<close> writes for one character.\<close>

definition quote_plus_char :: "char \<Rightarrow> string" where
  "quote_plus_char c =
     (if c = CHR '' '' then ''+'' else if c \<in> always_safe then [c] else pct c)"

text \<open>The connection object of \<open>http_example\<close>, as its constructor leaves it.\<close>

definition example_connection :: connection where
  "example_connection =
     fst (KodiConnection_init HTTP ''kodi'' 8080 None None False (PInt 5) None empty_world)"

text \<open>
  Two properties of a client operation, seen as a function from the store to a result
  and a store: it never raises \<open>InvalidAuthError\<close>; and it only appends requests sent
  through the handle \<open>srv\<close> to the log, its result and the requests depending on the store
  through the log alone.
\<close>

definition raises_no_auth_error :: "(world \<Rightarrow> 'a result) \<Rightarrow> bool" where
  "raises_no_auth_error m = (\<forall>w. fst (m w) \<noteq> Inl InvalidAuthError)"


text \<open>A client holding the handle 1.\<close>

definition example_client :: kodi where
  "example_client = \<lparr>conn = 2, server = Some 1\<rparr>"

text \<open>The operations that look for an active player before sending their command.\<close>

fun player_command :: "operation \<Rightarrow> bool" where
  "player_command PlayPause = True"
| "player_command Play = True"
| "player_command Pause = True"
| "player_command Stop = True"
| "player_command NextTrack = True"
| "player_command PreviousTrack = True"
| "player_command (MediaSeek p) = True"
| "player_command (SetShuffle v) = True"
| "player_command op = False"





section \<open>The connection factory\<close>

lemma session_closes_append [simp]:
  "session_closes (xs @ ys) = session_closes xs @ session_closes ys"
  by (induction xs rule: session_closes.induct) auto

lemma factory_result:
  assumes "get_kodi_connection host port ws_port u pw ssl t sess w = (a, w')"
  shows "\<exists>c h so. conns w' a = Some c
            \<and> cls c = (case ws_port of None \<Rightarrow> HTTP | Some p \<Rightarrow> WS)
            \<and> server_attr c = Some h
            \<and> servers w' h = Some so \<and> \<not> srv_connected so
            \<and> created_session c = (sess = None)
            \<and> session c = Some (case sess of None \<Rightarrow> next_handle w | Some s \<Rightarrow> s)
            \<and> log w' = log w"
  using assms
  by (auto simp add: get_kodi_connection_def KodiHTTPConnection_def KodiWSConnection_def
      KodiConnection_init_def new_server_def new_conn_def Let_def
      split: option.splits prod.splits)

text \<open>
  C5. Whatever the other construction inputs are, the factory builds an object of the
  HTTP subclass when the push port is \<open>None\<close> and of the WebSocket subclass when it is
  present; the class is a function of the presence of the push port alone, and building
  the object causes no outside effect.
\<close>

theorem factory_variant_by_push_port:
  "class_of (snd (get_kodi_connection host port ws_port u pw ssl t sess w))
            (fst (get_kodi_connection host port ws_port u pw ssl t sess w))
     = Some (case ws_port of None \<Rightarrow> HTTP | Some p \<Rightarrow> WS)
   \<and> log (snd (get_kodi_connection host port ws_port u pw ssl t sess w)) = log w"
  by (simp add: get_kodi_connection_def KodiHTTPConnection_def KodiWSConnection_def
      KodiConnection_init_def new_server_def new_conn_def class_of_def Let_def
      split: option.splits prod.splits)

section \<open>Connecting and closing\<close>

lemma connect_when_connected:
  "conns w a = Some c \<Longrightarrow> cls c = WS \<Longrightarrow> connected_at w a \<Longrightarrow> connect ev a w = (Inr (), w)"
  by (simp add: connect_def connected_at_def)

lemma connect_handshake_ok:
  assumes "conns w a = Some c" "cls c = WS" "server_attr c = Some h" "servers w h = Some so"
    "\<not> connected_at w a" "handshake ev (log w) h = None"
  shows "fst (connect ev a w) = Inr ()"
    and "connected_at (snd (connect ev a w)) a"
    and "log (snd (connect ev a w)) = log w @ [WsConnect h]"
    and "conns (snd (connect ev a w)) a = Some c"
  using assms
  by (simp_all add: connect_def connected_at_def connected_def ws_connect_def Let_def)

lemma connect_handshake_fails:
  assumes "conns w a = Some c" "cls c = WS" "server_attr c = Some h" "servers w h = Some so"
    "\<not> connected_at w a" "handshake ev (log w) h = Some (TransportError m)"
  shows "fst (connect ev a w) = Inl CannotConnectError"
    and "\<not> connected_at (snd (connect ev a w)) a"
    and "log (snd (connect ev a w)) = log w @ [WsConnect h]"
  using assms
  by (simp_all add: connect_def connected_at_def connected_def ws_connect_def Let_def)

text \<open>
  C7. A WebSocket connection fresh from the factory is not connected. For a WebSocket
  connection whose transport object exists: \<open>connect\<close> on a connected one returns at once
  and leaves the store (and so the log of handshakes) as it is; on a disconnected one, a
  successful handshake makes it connected after exactly one handshake attempt, and a
  second \<open>connect\<close> is then a no-op; a handshake that fails with a transport error raises
  \<open>CannotConnectError\<close> and leaves it disconnected.
\<close>

theorem ws_connect_lifecycle:
  "(get_kodi_connection host port (Some p) u pw ssl t sess w0 = (a0, w1) \<longrightarrow>
      \<not> connected_at w1 a0
      \<and> (\<exists>c h so. conns w1 a0 = Some c \<and> cls c = WS \<and> server_attr c = Some h
                   \<and> servers w1 h = Some so))
   \<and> (conns w a = Some c \<and> cls c = WS \<and> server_attr c = Some h \<and> servers w h = Some so \<longrightarrow>
        (connected_at w a \<longrightarrow> connect ev a w = (Inr (), w))
      \<and> (\<not> connected_at w a \<and> handshake ev (log w) h = None \<longrightarrow>
           fst (connect ev a w) = Inr ()
           \<and> connected_at (snd (connect ev a w)) a
           \<and> log (snd (connect ev a w)) = log w @ [WsConnect h]
           \<and> connect ev a (snd (connect ev a w)) = (Inr (), snd (connect ev a w)))
      \<and> (\<not> connected_at w a \<and> handshake ev (log w) h = Some (TransportError m) \<longrightarrow>
           fst (connect ev a w) = Inl CannotConnectError
           \<and> \<not> connected_at (snd (connect ev a w)) a))"
proof (intro conjI impI)
  assume f: "get_kodi_connection host port (Some p) u pw ssl t sess w0 = (a0, w1)"
  from factory_result[OF f] obtain c h so where
    c: "conns w1 a0 = Some c" "cls c = WS" "server_attr c = Some h"
       "servers w1 h = Some so" "\<not> srv_connected so"
    by auto
  then show "\<not> connected_at w1 a0"
    by (simp add: connected_at_def connected_def)
  from c show "\<exists>c h so. conns w1 a0 = Some c \<and> cls c = WS \<and> server_attr c = Some h
                   \<and> servers w1 h = Some so"
    by blast
next
  assume "conns w a = Some c \<and> cls c = WS \<and> server_attr c = Some h \<and> servers w h = Some so"
    and "connected_at w a"
  then show "connect ev a w = (Inr (), w)"
    by (simp add: connect_when_connected)
next
  assume c: "conns w a = Some c \<and> cls c = WS \<and> server_attr c = Some h \<and> servers w h = Some so"
    and h: "\<not> connected_at w a \<and> handshake ev (log w) h = None"
  then show "fst (connect ev a w) = Inr ()"
    and l: "connected_at (snd (connect ev a w)) a"
    and "log (snd (connect ev a w)) = log w @ [WsConnect h]"
    by (simp_all add: connect_handshake_ok)
  from c h have "conns (snd (connect ev a w)) a = Some c"
    by (simp add: connect_handshake_ok)
  with c l show "connect ev a (snd (connect ev a w)) = (Inr (), snd (connect ev a w))"
    by (simp add: connect_when_connected)
next
  assume "conns w a = Some c \<and> cls c = WS \<and> server_attr c = Some h \<and> servers w h = Some so"
    and "\<not> connected_at w a \<and> handshake ev (log w) h = Some (TransportError m)"
  then show "fst (connect ev a w) = Inl CannotConnectError"
    and "\<not> connected_at (snd (connect ev a w)) a"
    by (simp_all add: connect_handshake_fails)
qed

lemma ws_example_eval:
  "ws_example = (Suc (Suc 0), \<lparr>conns = [Suc (Suc 0) \<mapsto> \<lparr>cls = WS, session = Some 0,
        created_session = True,
        conn_kwargs = \<lparr>kw_timeout = PInt 5, kw_session = 0, kw_auth = None\<rparr>,
        image_url = ''http://kodi:8080/image'', server_attr = Some (Suc 0)\<rparr>],
     servers = [Suc 0 \<mapsto> \<lparr>srv_kind = WS, srv_url = ''ws://kodi:9090/jsonrpc'',
        srv_kwargs = \<lparr>kw_timeout = PInt 5, kw_session = 0, kw_auth = None\<rparr>,
        srv_connected = False\<rparr>],
     log = [], next_handle = Suc (Suc (Suc 0))\<rparr>)"
  by (simp add: ws_example_def get_kodi_connection_def KodiWSConnection_def
      KodiConnection_init_def new_server_def new_conn_def empty_world_def http_protocol_def
      str_int_def Let_def)

theorem ws_connect_lifecycle_witness:
  "\<not> connected_at (snd ws_example) (fst ws_example)
   \<and> fst (connect (answering PNone) (fst ws_example) (snd ws_example)) = Inr ()
   \<and> connected_at (snd (connect (answering PNone) (fst ws_example) (snd ws_example)))
        (fst ws_example)
   \<and> log (snd (connect (answering PNone) (fst ws_example)
            (snd (connect (answering PNone) (fst ws_example) (snd ws_example)))))
        = [WsConnect (Suc 0)]
   \<and> fst (connect (failing ''refused'') (fst ws_example) (snd ws_example))
        = Inl CannotConnectError
   \<and> \<not> connected_at (snd (connect (failing ''refused'') (fst ws_example) (snd ws_example)))
          (fst ws_example)"
proof -
  let ?c = "\<lparr>cls = WS, session = Some 0, created_session = True,
        conn_kwargs = \<lparr>kw_timeout = PInt 5, kw_session = 0, kw_auth = None\<rparr>,
        image_url = ''http://kodi:8080/image'', server_attr = Some (Suc 0)\<rparr>"
  let ?so = "\<lparr>srv_kind = WS, srv_url = ''ws://kodi:9090/jsonrpc'',
        srv_kwargs = \<lparr>kw_timeout = PInt 5, kw_session = 0, kw_auth = None\<rparr>,
        srv_connected = False\<rparr>"
  let ?a = "fst ws_example" and ?w = "snd ws_example"
  have e: "get_kodi_connection ''kodi'' 8080 (Some 9090) None None False (PInt 5) None empty_world
             = (?a, ?w)"
    by (simp add: ws_example_def)
  have c: "conns ?w ?a = Some ?c \<and> cls ?c = WS \<and> server_attr ?c = Some (Suc 0)
           \<and> servers ?w (Suc 0) = Some ?so"
    by (simp add: ws_example_eval)
  have l: "log ?w = []"
    by (simp add: ws_example_eval)
  note T = ws_connect_lifecycle[where host="''kodi''" and port=8080 and p=9090 and u=None
        and pw=None and ssl=False and t="PInt 5" and sess=None and ?w0.0=empty_world
        and ?a0.0="?a" and ?w1.0="?w" and w="?w" and a="?a" and c="?c" and h="Suc 0"
        and so="?so"]
  have d: "\<not> connected_at ?w ?a"
    using T[THEN conjunct1, THEN mp, OF e] by (rule conjunct1)
  have ok: "\<not> connected_at ?w ?a \<and> handshake (answering PNone) (log ?w) (Suc 0) = None"
    using d by (simp add: answering_def)
  have ko: "\<not> connected_at ?w ?a \<and> handshake (failing ''refused'') (log ?w) (Suc 0)
              = Some (TransportError ''refused'')"
    using d by (simp add: failing_def)
  note A = T[THEN conjunct2, THEN mp, OF c, THEN conjunct2, THEN conjunct1, THEN mp, OF ok]
  note B = T[THEN conjunct2, THEN mp, OF c, THEN conjunct2, THEN conjunct2, THEN mp, OF ko]
  from d A B l show ?thesis by simp
qed

lemma ws_close_twice:
  assumes "conns w a = Some c" "cls c = WS" "server_attr c = Some h"
  shows "fst (close a w) = Inr ()"
    and "close a (snd (close a w)) = (Inl AttributeError, snd (close a w))"
  using assms
  by (simp_all add: close_def close_base_def ws_close_def Let_def split: option.splits)

lemma http_close_twice:
  assumes "conns w a = Some c" "cls c = HTTP"
  shows "fst (close a w) = Inr ()"
    and "close a (snd (close a w)) = (Inr (), snd (close a w))"
  using assms
  by (cases w; cases c; simp add: close_def close_base_def Let_def split: option.splits)+

text \<open>
  C2. The second \<open>close()\<close> of a WebSocket connection: the first call succeeds and clears
  \<open>_ws_server\<close>, so the second one calls \<open>close\<close> on \<open>None\<close> and raises \<open>AttributeError\<close>
  before anything else happens. This holds for every WebSocket connection the factory
  builds.
\<close>

theorem ws_second_close_raises:
  "fst (close (fst (get_kodi_connection host port (Some p) u pw ssl t sess w))
              (snd (get_kodi_connection host port (Some p) u pw ssl t sess w))) = Inr ()
   \<and> fst (close (fst (get_kodi_connection host port (Some p) u pw ssl t sess w))
         (snd (close (fst (get_kodi_connection host port (Some p) u pw ssl t sess w))
                     (snd (get_kodi_connection host port (Some p) u pw ssl t sess w)))))
       = Inl AttributeError"
proof -
  obtain a w' where f: "get_kodi_connection host port (Some p) u pw ssl t sess w = (a, w')"
    by (cases "get_kodi_connection host port (Some p) u pw ssl t sess w")
  from factory_result[OF f] obtain c h where
    "conns w' a = Some c" "cls c = WS" "server_attr c = Some h"
    by auto
  from ws_close_twice[OF this] f show ?thesis by simp
qed

text \<open>
  The HTTP subclass has no such call: its second \<open>close()\<close> returns normally and changes
  nothing.
\<close>

lemma http_second_close_noop:
  "close (fst (get_kodi_connection host port None u pw ssl t sess w))
         (snd (close (fst (get_kodi_connection host port None u pw ssl t sess w))
                     (snd (get_kodi_connection host port None u pw ssl t sess w))))
     = (Inr (),
        snd (close (fst (get_kodi_connection host port None u pw ssl t sess w))
                     (snd (get_kodi_connection host port None u pw ssl t sess w))))"
proof -
  obtain a w' where f: "get_kodi_connection host port None u pw ssl t sess w = (a, w')"
    by (cases "get_kodi_connection host port None u pw ssl t sess w")
  from factory_result[OF f] obtain c where
    "conns w' a = Some c" "cls c = HTTP"
    by auto
  from http_close_twice(2)[OF this] f show ?thesis by simp
qed

section \<open>Session ownership\<close>

lemma close_borrowed:
  assumes "conns w a = Some c" "\<not> created_session c"
  shows "session_closes (log (snd (close a w))) = session_closes (log w)
         \<and> (\<exists>c'. conns (snd (close a w)) a = Some c' \<and> \<not> created_session c')"
  using assms
  by (auto simp add: close_def close_base_def ws_close_def Let_def
      split: option.splits variant.splits)

lemma close_n_borrowed:
  "conns w a = Some c \<Longrightarrow> \<not> created_session c \<Longrightarrow>
   session_closes (log (close_n n a w)) = session_closes (log w)"
proof (induction n arbitrary: w c)
  case 0
  then show ?case by simp
next
  case (Suc n)
  from close_borrowed[OF Suc.prems] obtain c' where
    l: "session_closes (log (snd (close a w))) = session_closes (log w)" and
    c': "conns (snd (close a w)) a = Some c'" "\<not> created_session c'"
    by blast
  from Suc.IH[OF c'] l show ?case by simp
qed

lemma close_owned:
  assumes "conns w a = Some c" "created_session c" "session c = Some s"
    "cls c = HTTP \<or> server_attr c \<noteq> None"
  shows "fst (close a w) = Inr ()
         \<and> session_closes (log (snd (close a w))) = session_closes (log w) @ [s]
         \<and> (\<exists>c'. conns (snd (close a w)) a = Some c' \<and> \<not> created_session c'
               \<and> server_attr c' = None \<and> cls c' = cls c)"
  using assms
  by (auto simp add: close_def close_base_def ws_close_def Let_def
      split: option.splits variant.splits)

text \<open>
  C8. For a connection of either kind built by the factory and then closed \<open>n\<close> times in
  a row: when a session was supplied, no session is ever closed; when none was supplied,
  the session the constructor created (the handle \<open>next_handle w\<close>) is closed exactly
  once, however large \<open>n \<ge> 1\<close> is.
\<close>

theorem session_ownership:
  assumes "get_kodi_connection host port ws_port u pw ssl t sess w = (a, w')"
  shows "(sess \<noteq> None \<longrightarrow> session_closes (log (close_n n a w')) = session_closes (log w))
       \<and> (sess = None \<and> 0 < n \<longrightarrow>
            session_closes (log (close_n n a w')) = session_closes (log w) @ [next_handle w])"
proof -
  from factory_result[OF assms] obtain c h so where
    c: "conns w' a = Some c" "server_attr c = Some h"
       "created_session c = (sess = None)"
       "session c = Some (case sess of None \<Rightarrow> next_handle w | Some s \<Rightarrow> s)"
       "log w' = log w"
    by blast
  show ?thesis
  proof (intro conjI impI)
    assume "sess \<noteq> None"
    with c have "\<not> created_session c" by simp
    from close_n_borrowed[OF c(1) this] c(5)
    show "session_closes (log (close_n n a w')) = session_closes (log w)" by simp
  next
    assume a: "sess = None \<and> 0 < n"
    then obtain m where n: "n = Suc m" by (cases n) auto
    from a c have o: "created_session c" "session c = Some (next_handle w)" by simp_all
    from c(2) have "cls c = HTTP \<or> server_attr c \<noteq> None" by simp
    from close_owned[OF c(1) o this] obtain c' where
      l: "session_closes (log (snd (close a w'))) = session_closes (log w') @ [next_handle w]" and
      c': "conns (snd (close a w')) a = Some c'" "\<not> created_session c'"
      by blast
    from close_n_borrowed[OF c'] l c(5) n
    show "session_closes (log (close_n n a w')) = session_closes (log w) @ [next_handle w]"
      by simp
  qed
qed

theorem session_ownership_witness:
  "session_closes (log (close_n 3 (fst ws_example) (snd ws_example))) = [0]
   \<and> session_closes (log (close_n 3 (fst http_example) (snd http_example))) = [0]
   \<and> session_closes (log (close_n 3 (fst ws_borrowing) (snd ws_borrowing))) = []
   \<and> session_closes (log (close_n 3 (fst http_borrowing) (snd http_borrowing))) = []"
proof -
  have e: "get_kodi_connection ''kodi'' 8080 (Some 9090) None None False (PInt 5) None empty_world
             = (fst ws_example, snd ws_example)"
    "get_kodi_connection ''kodi'' 8080 None None None False (PInt 5) None empty_world
             = (fst http_example, snd http_example)"
    "get_kodi_connection ''kodi'' 8080 (Some 9090) None None False (PInt 5) (Some 7) empty_world
             = (fst ws_borrowing, snd ws_borrowing)"
    "get_kodi_connection ''kodi'' 8080 None None None False (PInt 5) (Some 7) empty_world
             = (fst http_borrowing, snd http_borrowing)"
    by (simp_all add: ws_example_def http_example_def ws_borrowing_def http_borrowing_def)
  show ?thesis
    using session_ownership[OF e(1), of 3] session_ownership[OF e(2), of 3]
      session_ownership[OF e(3), of 3] session_ownership[OF e(4), of 3]
    by (simp add: empty_world_def)
qed

section \<open>Thumbnail URLs: the rewriting rule\<close>

lemma hex_digits_safe: "list_all (\<lambda>n. hex_digit n \<in> always_safe) [0..<16]"
  by (simp add: upt_rec hex_digit_def always_safe_def)

lemma hex_digit_safe: "n < 16 \<Longrightarrow> hex_digit n \<in> always_safe"
  using hex_digits_safe by (simp add: list_all_iff)

lemma pct_alphabet: "set (pct c) \<subseteq> always_safe \<union> {CHR ''%'', CHR ''+''}"
proof -
  have "(of_char c :: nat) < 256" by simp
  then have "(of_char c :: nat) div 16 < 16" by arith
  moreover have "(of_char c :: nat) mod 16 < 16" by simp
  ultimately show ?thesis
    by (simp add: pct_def hex_digit_safe)
qed

lemma space_unsafe: "CHR '' '' \<notin> always_safe"
  by (simp add: always_safe_def)

lemma quote_no_space: "CHR '' '' \<notin> set s \<Longrightarrow> quote s [] = concat (map quote_plus_char s)"
  by (induction s) (auto simp add: quote_def quote_plus_char_def)

lemma pct_no_space: "CHR '' '' \<notin> set (pct c)"
  using pct_alphabet[of c] space_unsafe by (auto simp add: always_safe_def)

lemma quote_space:
  "map (\<lambda>c. if c = CHR '' '' then CHR ''+'' else c) (quote s '' '')
     = concat (map quote_plus_char s)"
proof (induction s)
  case Nil
  then show ?case by (simp add: quote_def)
next
  case (Cons a s)
  have "map (\<lambda>c. if c = CHR '' '' then CHR ''+'' else c) (pct a) = pct a"
    using pct_no_space[of a] by (intro map_idI) auto
  with Cons show ?case
    by (auto simp add: quote_def quote_plus_char_def space_unsafe)
qed

lemma quote_plus_charwise: "quote_plus s = concat (map quote_plus_char s)"
  by (simp add: quote_plus_def quote_no_space quote_space)

lemma quote_plus_append: "quote_plus (s @ s') = quote_plus s @ quote_plus s'"
  by (simp add: quote_plus_charwise)

lemma quote_plus_alphabet: "set (quote_plus s) \<subseteq> always_safe \<union> {CHR ''%'', CHR ''+''}"
  using pct_alphabet by (auto simp add: quote_plus_charwise quote_plus_char_def)

lemma reserved_escaped: "ch \<in> reserved \<Longrightarrow> quote_plus [ch] = pct ch"
  by (auto simp add: reserved_def quote_plus_charwise quote_plus_char_def always_safe_def)

lemma quote_plus_example: "quote_plus ''image://foo%20bar/'' = ''image%3A%2F%2Ffoo%2520bar%2F''"
  by (simp add: quote_plus_def quote_def always_safe_def pct_def hex_digit_def)

lemma scheme_example_image: "urlparse_scheme nv ''image://foo%20bar/'' = Inr ''image''"
  by (simp add: urlparse_scheme_def split_scheme_def strip_url_def netloc_of_def is_alpha_def scheme_chars_def lower_char_def is_ascii_def)

lemma scheme_example_http: "urlparse_scheme nv ''http://example.com/x.jpg'' = Inr ''http''"
  by (simp add: urlparse_scheme_def split_scheme_def strip_url_def netloc_of_def is_alpha_def scheme_chars_def lower_char_def is_ascii_def)

lemma scheme_chars_kept:
  assumes "set pre \<subseteq> scheme_chars"
  shows "filter (\<lambda>c. c \<notin> {CHR 0x09, CHR 0x0D, CHR 0x0A}) pre = pre"
    and "CHR '':'' \<notin> set pre"
proof -
  have "CHR 0x09 \<notin> scheme_chars" "CHR 0x0D \<notin> scheme_chars" "CHR 0x0A \<notin> scheme_chars"
    "CHR '':'' \<notin> scheme_chars"
    by (simp_all add: scheme_chars_def)
  with assms show "filter (\<lambda>c. c \<notin> {CHR 0x09, CHR 0x0D, CHR 0x0A}) pre = pre"
    and "CHR '':'' \<notin> set pre"
    by (auto intro!: filter_True)
qed

lemma alpha_not_stripped: "is_alpha c \<Longrightarrow> \<not> (of_char c :: nat) \<le> 32"
  by (auto simp add: is_alpha_def)

lemma alpha_is_scheme_char: "is_alpha c \<Longrightarrow> c \<in> scheme_chars"
  by (auto simp add: is_alpha_def scheme_chars_def)

lemma strip_url_prefixed:
  assumes "pre \<noteq> []" "is_alpha (hd pre)" "set pre \<subseteq> scheme_chars"
  shows "strip_url (pre @ CHR '':'' # r)
           = pre @ CHR '':'' # filter (\<lambda>c. c \<notin> {CHR 0x09, CHR 0x0D, CHR 0x0A}) r"
proof -
  from assms(1) obtain p ps where pre: "pre = p # ps" by (cases pre) auto
  with assms(2) have "\<not> (of_char p :: nat) \<le> 32" by (simp add: alpha_not_stripped)
  then have "dropWhile (\<lambda>c. (of_char c :: nat) \<le> 32) (pre @ CHR '':'' # r) = pre @ CHR '':'' # r"
    by (simp add: pre)
  then show ?thesis
    using scheme_chars_kept(1)[OF assms(3)] by (simp add: strip_url_def)
qed

lemma split_scheme_prefixed:
  assumes "pre \<noteq> []" "is_alpha (hd pre)" "set pre \<subseteq> scheme_chars"
  shows "split_scheme (pre @ CHR '':'' # r) = (map lower_char pre, r)"
proof -
  from scheme_chars_kept(2)[OF assms(3)]
  have "takeWhile (\<lambda>c. c \<noteq> CHR '':'') (pre @ CHR '':'' # r) = pre"
    by (subst takeWhile_append2) auto
  with assms show ?thesis
    by (simp add: split_scheme_def Let_def)
qed


lemma urlparse_scheme_prefixed:
  assumes "pre \<noteq> []" "is_alpha (hd pre)" "set pre \<subseteq> scheme_chars"
    and "CHR ''['' \<notin> set r" "CHR '']'' \<notin> set r" "list_all is_ascii r"
  shows "urlparse_scheme nv (pre @ CHR '':'' # r) = Inr (map lower_char pre)"
proof -
  let ?r = "filter (\<lambda>c. c \<notin> {CHR 0x09, CHR 0x0D, CHR 0x0A}) r"
  have sub: "set (netloc_of ?r) \<subseteq> set r"
  proof
    fix x assume "x \<in> set (netloc_of ?r)"
    then have "x \<in> set (drop 2 ?r)"
      by (auto simp add: netloc_of_def dest: set_takeWhileD split: if_splits)
    then have "x \<in> set ?r" by (rule in_set_dropD)
    then show "x \<in> set r" by simp
  qed
  with assms(4,5) have b: "CHR ''['' \<notin> set (netloc_of ?r)" "CHR '']'' \<notin> set (netloc_of ?r)"
    by auto
  from sub assms(6) have a: "list_all is_ascii (netloc_of ?r)"
    by (auto simp add: list_all_iff)
  from assms(1,2,3) a b show ?thesis
    by (simp add: urlparse_scheme_def strip_url_prefixed split_scheme_prefixed Let_def)
qed

lemma thumbnail_url_prefixed:
  assumes "pre \<noteq> []" "is_alpha (hd pre)" "set pre \<subseteq> scheme_chars"
    and "CHR ''['' \<notin> set r" "CHR '']'' \<notin> set r" "list_all is_ascii r"
  shows "thumbnail_url nv c (Some (pre @ CHR '':'' # r))
           = (if map lower_char pre = ''image''
              then Inr (Some (image_url c @ ''/'' @ quote_plus (pre @ CHR '':'' # r)))
              else Inr None)"
  using urlparse_scheme_prefixed[OF assms, of nv] by (simp add: thumbnail_url_def)

lemma takeWhile_filter_netloc:
  assumes "\<forall>x \<in> set n. x \<notin> {CHR ''/'', CHR ''?'', CHR ''#''}"
    and "rest = [] \<or> hd rest \<in> {CHR ''/'', CHR ''?'', CHR ''#''}"
  shows "takeWhile (\<lambda>c. c \<notin> {CHR ''/'', CHR ''?'', CHR ''#''})
           (filter (\<lambda>c. c \<notin> {CHR 0x09, CHR 0x0D, CHR 0x0A}) (n @ rest))
         = filter (\<lambda>c. c \<notin> {CHR 0x09, CHR 0x0D, CHR 0x0A}) n"
proof -
  let ?f = "filter (\<lambda>c. c \<notin> {CHR 0x09, CHR 0x0D, CHR 0x0A})"
  let ?P = "\<lambda>c. c \<notin> {CHR ''/'', CHR ''?'', CHR ''#''}"
  have 1: "takeWhile ?P (?f n @ ?f rest) = ?f n @ takeWhile ?P (?f rest)"
    using assms(1) by (subst takeWhile_append2) auto
  have 2: "takeWhile ?P (?f rest) = []"
  proof (cases rest)
    case Nil
    then show ?thesis by simp
  next
    case (Cons x xs)
    with assms(2) have "x \<in> {CHR ''/'', CHR ''?'', CHR ''#''}" by simp
    then have "?f rest = x # ?f xs" "\<not> ?P x" using Cons by auto
    then show ?thesis by simp
  qed
  from 1 2 show ?thesis by simp
qed

lemma thumbnail_url_unbalanced_brackets:
  assumes "pre \<noteq> []" "is_alpha (hd pre)" "set pre \<subseteq> scheme_chars"
    and "\<forall>x \<in> set n. x \<notin> {CHR ''/'', CHR ''?'', CHR ''#''}"
    and "rest = [] \<or> hd rest \<in> {CHR ''/'', CHR ''?'', CHR ''#''}"
    and "(CHR ''['' \<in> set n) \<noteq> (CHR '']'' \<in> set n)"
  shows "thumbnail_url nv c (Some (pre @ ''://'' @ n @ rest)) = Inl ValueError"
proof -
  let ?f = "filter (\<lambda>c. c \<notin> {CHR 0x09, CHR 0x0D, CHR 0x0A})"
  have eq: "pre @ ''://'' @ n @ rest = pre @ CHR '':'' # (''//'' @ n @ rest)" by simp
  have 1: "strip_url (pre @ CHR '':'' # (''//'' @ n @ rest))
             = pre @ CHR '':'' # ?f (''//'' @ n @ rest)"
    by (rule strip_url_prefixed[OF assms(1,2,3)])
  have 2: "?f (''//'' @ n @ rest) = ''//'' @ ?f (n @ rest)" by simp
  have s: "split_scheme (strip_url (pre @ ''://'' @ n @ rest))
                  = (map lower_char pre, ''//'' @ ?f (n @ rest))"
    by (simp only: eq 1 2 split_scheme_prefixed[OF assms(1,2,3)])
  have nl: "netloc_of (''//'' @ ?f (n @ rest)) = ?f n"
    using takeWhile_filter_netloc[OF assms(4,5)] by (simp add: netloc_of_def)
  have "(CHR ''['' \<in> set (?f n)) = (CHR ''['' \<in> set n)"
    "(CHR '']'' \<in> set (?f n)) = (CHR '']'' \<in> set n)"
    by auto
  with assms(6) s nl show ?thesis
    by (simp add: thumbnail_url_def urlparse_scheme_def Let_def)
qed

lemma urlparse_raises_only_ValueError:
  "urlparse_scheme nv t = Inl e \<Longrightarrow> e = ValueError"
  by (auto simp add: urlparse_scheme_def Let_def split: prod.splits if_splits)

text \<open>
  C6, as the code has it. \<open>thumbnail_url\<close> depends on the connection's image base URL and
  the reference only. \<open>None\<close> gives \<open>None\<close>. For a reference that \<open>urlparse\<close> accepts, the
  result is the image base URL, a slash and \<open>quote_plus\<close> of the whole reference when the
  parsed scheme is \<open>image\<close>, and \<open>None\<close> for any other scheme; a reference that \<open>urlparse\<close>
  rejects raises \<open>ValueError\<close>. On the text of the reference: a reference \<open>pre:r\<close> whose
  \<open>pre\<close> is a well-formed scheme and whose \<open>r\<close> is ASCII without square brackets is
  rewritten exactly when \<open>pre\<close> is \<open>image\<close> in any letter case; a reference
  \<open>pre://n rest\<close> whose netloc \<open>n\<close> holds one kind of square bracket only raises
  \<open>ValueError\<close>. \<open>quote_plus\<close> works character by character: a space becomes \<open>+\<close>, an
  unreserved character stays, any other byte (every reserved character, \<open>/\<close> and \<open>:\<close>
  among them) becomes \<open>%XX\<close>. The two examples of the specification evaluate as stated.
\<close>

theorem thumbnail_url_rewrites_image_scheme:
  "thumbnail_url nv c None = Inr None
   \<and> thumbnail_url nv c (Some t)
       = (case urlparse_scheme nv t of
            Inl e \<Rightarrow> Inl ValueError
          | Inr sch \<Rightarrow>
              if sch = ''image'' then Inr (Some (image_url c @ ''/'' @ quote_plus t))
              else Inr None)
   \<and> (pre \<noteq> [] \<and> is_alpha (hd pre) \<and> set pre \<subseteq> scheme_chars
        \<and> CHR ''['' \<notin> set r \<and> CHR '']'' \<notin> set r \<and> list_all is_ascii r \<longrightarrow>
        thumbnail_url nv c (Some (pre @ CHR '':'' # r))
          = (if map lower_char pre = ''image''
             then Inr (Some (image_url c @ ''/'' @ quote_plus (pre @ CHR '':'' # r)))
             else Inr None))
   \<and> (pre \<noteq> [] \<and> is_alpha (hd pre) \<and> set pre \<subseteq> scheme_chars
        \<and> (\<forall>x \<in> set n. x \<notin> {CHR ''/'', CHR ''?'', CHR ''#''})
        \<and> (rest = [] \<or> hd rest \<in> {CHR ''/'', CHR ''?'', CHR ''#''})
        \<and> (CHR ''['' \<in> set n) \<noteq> (CHR '']'' \<in> set n) \<longrightarrow>
        thumbnail_url nv c (Some (pre @ ''://'' @ n @ rest)) = Inl ValueError)
   \<and> quote_plus t = concat (map quote_plus_char t)
   \<and> set (quote_plus t) \<subseteq> always_safe \<union> {CHR ''%'', CHR ''+''}
   \<and> (\<forall>ch \<in> reserved. quote_plus [ch] = pct ch)
   \<and> quote_plus '' '' = ''+''
   \<and> thumbnail_url nv c (Some ''image://foo%20bar/'')
        = Inr (Some (image_url c @ ''/image%3A%2F%2Ffoo%2520bar%2F''))
   \<and> thumbnail_url nv c (Some ''http://example.com/x.jpg'') = Inr None"
proof (intro conjI impI ballI)
  show "thumbnail_url nv c (Some t)
       = (case urlparse_scheme nv t of
            Inl e \<Rightarrow> Inl ValueError
          | Inr sch \<Rightarrow>
              if sch = ''image'' then Inr (Some (image_url c @ ''/'' @ quote_plus t))
              else Inr None)"
    by (auto simp add: thumbnail_url_def split: sum.splits
        dest: urlparse_raises_only_ValueError)
  show "set (quote_plus t) \<subseteq> always_safe \<union> {CHR ''%'', CHR ''+''}"
    by (rule quote_plus_alphabet)
  show "quote_plus t = concat (map quote_plus_char t)"
    by (rule quote_plus_charwise)
  show "\<And>ch. ch \<in> reserved \<Longrightarrow> quote_plus [ch] = pct ch"
    by (rule reserved_escaped)
  show "thumbnail_url nv c (Some (pre @ CHR '':'' # r))
          = (if map lower_char pre = ''image''
             then Inr (Some (image_url c @ ''/'' @ quote_plus (pre @ CHR '':'' # r)))
             else Inr None)"
    if "pre \<noteq> [] \<and> is_alpha (hd pre) \<and> set pre \<subseteq> scheme_chars
        \<and> CHR ''['' \<notin> set r \<and> CHR '']'' \<notin> set r \<and> list_all is_ascii r"
    using that by (intro thumbnail_url_prefixed) simp_all
  show "thumbnail_url nv c (Some (pre @ ''://'' @ n @ rest)) = Inl ValueError"
    if "pre \<noteq> [] \<and> is_alpha (hd pre) \<and> set pre \<subseteq> scheme_chars
        \<and> (\<forall>x \<in> set n. x \<notin> {CHR ''/'', CHR ''?'', CHR ''#''})
        \<and> (rest = [] \<or> hd rest \<in> {CHR ''/'', CHR ''?'', CHR ''#''})
        \<and> (CHR ''['' \<in> set n) \<noteq> (CHR '']'' \<in> set n)"
    using that by (intro thumbnail_url_unbalanced_brackets) simp_all
  show "quote_plus '' '' = ''+''"
    by (simp add: quote_plus_def quote_def always_safe_def)
qed (simp_all add: thumbnail_url_def quote_plus_example scheme_example_image scheme_example_http)

text \<open>
  C6, as stated, fails in two ways. A reference whose netloc holds an unmatched square
  bracket raises \<open>ValueError\<close>, whether it starts with \<open>image:\<close> (no rewritten URL) or
  with another scheme (no \<open>None\<close>). And a space in a rewritten reference is written \<open>+\<close>,
  not percent-encoded.
\<close>

theorem thumbnail_url_unmatched_bracket_counterexample:
  "thumbnail_url (\<lambda>n. True) example_connection (Some ''image://[tv/a.png'') = Inl ValueError
   \<and> thumbnail_url (\<lambda>n. True) example_connection (Some ''http://[::1/x.jpg'') = Inl ValueError
   \<and> thumbnail_url (\<lambda>n. True) example_connection (Some ''image://tv/a b.png'')
       = Inr (Some ''http://kodi:8080/image/image%3A%2F%2Ftv%2Fa+b.png'')"
  by (simp add: thumbnail_url_def urlparse_scheme_def split_scheme_def strip_url_def
      netloc_of_def is_alpha_def scheme_chars_def lower_char_def is_ascii_def
      quote_plus_def quote_def always_safe_def pct_def hex_digit_def
      example_connection_def KodiConnection_init_def http_protocol_def str_int_def Let_def)

theorem thumbnail_url_rewrites_image_scheme_witness:
  "thumbnail_url (\<lambda>n. True) example_connection (Some ''Image://tv/poster 1.jpg'')
     = Inr (Some ''http://kodi:8080/image/Image%3A%2F%2Ftv%2Fposter+1.jpg'')
   \<and> thumbnail_url (\<lambda>n. True) example_connection (Some ''smb://nas/x.jpg'') = Inr None
   \<and> thumbnail_url (\<lambda>n. True) example_connection (Some ''image://tv]/a.png'') = Inl ValueError
   \<and> quote_plus ''/'' = ''%2F''"
proof -
  have h1: "''Image'' \<noteq> [] \<and> is_alpha (hd ''Image'') \<and> set ''Image'' \<subseteq> scheme_chars
      \<and> CHR ''['' \<notin> set ''//tv/poster 1.jpg'' \<and> CHR '']'' \<notin> set ''//tv/poster 1.jpg''
      \<and> list_all is_ascii ''//tv/poster 1.jpg''"
    by (simp add: is_alpha_def scheme_chars_def is_ascii_def)
  have h2: "''smb'' \<noteq> [] \<and> is_alpha (hd ''smb'') \<and> set ''smb'' \<subseteq> scheme_chars
      \<and> CHR ''['' \<notin> set ''//nas/x.jpg'' \<and> CHR '']'' \<notin> set ''//nas/x.jpg''
      \<and> list_all is_ascii ''//nas/x.jpg''"
    by (simp add: is_alpha_def scheme_chars_def is_ascii_def)
  have h3: "''image'' \<noteq> [] \<and> is_alpha (hd ''image'') \<and> set ''image'' \<subseteq> scheme_chars
      \<and> (\<forall>x \<in> set ''tv]''. x \<notin> {CHR ''/'', CHR ''?'', CHR ''#''})
      \<and> (''/a.png'' = [] \<or> hd ''/a.png'' \<in> {CHR ''/'', CHR ''?'', CHR ''#''})
      \<and> (CHR ''['' \<in> set ''tv]'') \<noteq> (CHR '']'' \<in> set ''tv]'')"
    by (simp add: is_alpha_def scheme_chars_def)
  have r: "CHR ''/'' \<in> reserved"
    by (simp add: reserved_def)
  have q: "quote_plus ''Image://tv/poster 1.jpg'' = ''Image%3A%2F%2Ftv%2Fposter+1.jpg''"
    by (simp add: quote_plus_def quote_def always_safe_def pct_def hex_digit_def)
  have i: "image_url example_connection = ''http://kodi:8080/image''"
    by (simp add: example_connection_def KodiConnection_init_def http_protocol_def
        str_int_def Let_def)
  note T = thumbnail_url_rewrites_image_scheme[where nv="\<lambda>n. True" and c=example_connection]
  note a = T[where pre="''Image''" and r="''//tv/poster 1.jpg''",
      THEN conjunct2, THEN conjunct2, THEN conjunct1, THEN mp, OF h1]
  note b = T[where pre="''smb''" and r="''//nas/x.jpg''",
      THEN conjunct2, THEN conjunct2, THEN conjunct1, THEN mp, OF h2]
  note c = T[where pre="''image''" and n="''tv]''" and rest="''/a.png''",
      THEN conjunct2, THEN conjunct2, THEN conjunct2, THEN conjunct1, THEN mp, OF h3]
  note d = T[THEN conjunct2, THEN conjunct2, THEN conjunct2, THEN conjunct2, THEN conjunct2,
      THEN conjunct2, THEN conjunct1, THEN bspec, OF r]
  from a b c d q i show ?thesis
    by (simp add: lower_char_def pct_def hex_digit_def)
qed

section \<open>Playlists\<close>

text \<open>
  C4. \<open>add_song_to_playlist\<close> and \<open>add_album_to_playlist\<close> leave the store as it is: no
  request is sent, whatever the remote would answer. Through an open handle they build
  the \<open>Playlist.Add\<close> request with playlist 0 and the wrapped item, and return \<open>None\<close>
  without awaiting it. \<open>clear_playlist\<close> awaits its call: exactly one request,
  \<open>Playlist.Clear\<close> with playlist 0, is sent through the client's handle.
\<close>

theorem playlist_add_sends_nothing:
  "snd (add_song_to_playlist ev k song_id w) = w
   \<and> snd (add_album_to_playlist ev k album_id w) = w
   \<and> add_song_to_playlist ev \<lparr>conn = a, server = Some h\<rparr> song_id w = (Inr PNone, w)
   \<and> add_album_to_playlist ev \<lparr>conn = a, server = Some h\<rparr> album_id w = (Inr PNone, w)
   \<and> method_call (Some h)
        (Rpc ''Playlist.Add''
           [PDict [(''playlistid'', PInt 0), (''item'', PDict [(''songid'', song_id)])]] [])
        = Inr (Coroutine h
           (Rpc ''Playlist.Add''
              [PDict [(''playlistid'', PInt 0), (''item'', PDict [(''songid'', song_id)])]] []))
   \<and> new_events w (snd (clear_playlist ev \<lparr>conn = a, server = Some h\<rparr> w))
        = [Sent h (Rpc ''Playlist.Clear'' [PDict [(''playlistid'', PInt 0)]] [])]"
  by (simp add: add_song_to_playlist_def add_album_to_playlist_def add_item_to_playlist_def
      clear_playlist_def method_call_def invoke_def discard_def bind_def new_events_def
      Let_def split: option.splits sum.splits)

section \<open>The client: errors and dispatch\<close>

lemma na_invoke: "raises_no_auth_error (invoke ev srv r)"
  by (cases srv)
     (auto simp add: raises_no_auth_error_def invoke_def method_call_def split: sum.splits)

lemma na_lift: "x \<noteq> Inl InvalidAuthError \<Longrightarrow> raises_no_auth_error (lift x)"
  by (simp add: raises_no_auth_error_def lift_def)

lemma na_return: "raises_no_auth_error (\<lambda>w. (Inr v, w))"
  by (simp add: raises_no_auth_error_def)

lemma na_raise: "e \<noteq> InvalidAuthError \<Longrightarrow> raises_no_auth_error (\<lambda>w. (Inl e, w))"
  by (simp add: raises_no_auth_error_def)

lemma na_bind:
  assumes "raises_no_auth_error m" "\<And>v. raises_no_auth_error (f v)"
  shows "raises_no_auth_error (\<lambda>w. bind (m w) f)"
  unfolding raises_no_auth_error_def
proof
  fix w
  obtain r w' where mw: "m w = (r, w')" by (cases "m w")
  show "fst (bind (m w) f) \<noteq> Inl InvalidAuthError"
  proof (cases r)
    case (Inl e)
    with assms(1) mw have "e \<noteq> InvalidAuthError"
      by (auto simp add: raises_no_auth_error_def dest: spec[of _ w])
    with Inl mw show ?thesis by (simp add: bind_def)
  next
    case (Inr v)
    with assms(2)[of v] mw show ?thesis
      by (simp add: bind_def raises_no_auth_error_def)
  qed
qed

lemma na_discard: "raises_no_auth_error m \<Longrightarrow> raises_no_auth_error (\<lambda>w. discard (m w))"
  unfolding discard_def by (rule na_bind) (simp_all add: na_return)

lemma getitem_no_auth: "getitem v key \<noteq> Inl InvalidAuthError"
  by (cases v) (simp_all split: option.splits)

lemma first_playerid_no_auth: "first_playerid v \<noteq> Inl InvalidAuthError"
  by (induction v rule: first_playerid.induct) (simp_all add: getitem_no_auth)

lemma na_with_first_player:
  assumes "\<And>pid. raises_no_auth_error (f pid)"
  shows "raises_no_auth_error (with_first_player players f)"
proof (cases "truthy players")
  case True
  have "raises_no_auth_error (\<lambda>w. bind (lift (first_playerid players) w) f)"
    by (rule na_bind) (simp_all add: na_lift first_playerid_no_auth assms)
  with True show ?thesis
    by (simp add: with_first_player_def[abs_def])
next
  case False
  then show ?thesis
    by (simp add: with_first_player_def[abs_def] na_return)
qed









lemma na_case_option:
  "raises_no_auth_error m \<Longrightarrow> (\<And>i. raises_no_auth_error (f i)) \<Longrightarrow>
   raises_no_auth_error (\<lambda>w. case x of None \<Rightarrow> m w | Some i \<Rightarrow> f i w)"
  by (cases x) simp_all

lemma na_if:
  "raises_no_auth_error m \<Longrightarrow> raises_no_auth_error m' \<Longrightarrow>
   raises_no_auth_error (\<lambda>w. if b then m w else m' w)"
  by (cases b) simp_all


lemma na_method_call:
  "raises_no_auth_error m \<Longrightarrow>
   raises_no_auth_error (\<lambda>w. case method_call srv r of Inl e \<Rightarrow> (Inl e, w) | Inr co \<Rightarrow> m w)"
  by (cases srv) (simp_all add: method_call_def na_raise)

lemmas op_defs =
  get_application_properties_def get_player_properties_def get_playing_item_properties_def
  volume_up_def volume_down_def set_volume_level_def mute_def get_players_def
  set_play_state_def play_pause_def play_def pause_def stop_def goto_def next_track_def
  previous_track_def media_seek_def play_item_def play_channel_def play_playlist_def
  play_directory_def play_file_def set_shuffle_def call_method_def add_item_to_playlist_def
  add_song_to_playlist_def add_album_to_playlist_def clear_playlist_def get_artists_def
  get_albums_def get_songs_def send_notification_def

lemmas na_intros =
  na_bind na_discard na_invoke na_with_first_player na_return na_lift na_if na_raise na_case_option na_method_call
  getitem_no_auth first_playerid_no_auth


lemma run_ext:
  "run ev k Ping = ping ev k"
  "run ev k (GetApplicationProperties x1_0) = get_application_properties ev k x1_0"
  "run ev k (GetPlayerProperties x2_0 x2_1) = get_player_properties ev k x2_0 x2_1"
  "run ev k (GetPlayingItemProperties x3_0 x3_1) = get_playing_item_properties ev k x3_0 x3_1"
  "run ev k VolumeUp = volume_up ev k"
  "run ev k VolumeDown = volume_down ev k"
  "run ev k (SetVolumeLevel x6_0) = set_volume_level ev k x6_0"
  "run ev k (Mute x7_0) = mute ev k x7_0"
  "run ev k PlayPause = play_pause ev k"
  "run ev k Play = play ev k"
  "run ev k Pause = pause ev k"
  "run ev k Stop = stop ev k"
  "run ev k NextTrack = next_track ev k"
  "run ev k PreviousTrack = previous_track ev k"
  "run ev k (MediaSeek x14_0) = media_seek ev k x14_0"
  "run ev k (PlayChannel x15_0) = play_channel ev k x15_0"
  "run ev k (PlayPlaylist x16_0) = play_playlist ev k x16_0"
  "run ev k (PlayDirectory x17_0) = play_directory ev k x17_0"
  "run ev k (PlayFile x18_0) = play_file ev k x18_0"
  "run ev k (SetShuffle x19_0) = set_shuffle ev k x19_0"
  "run ev k (CallMethod x20_0 x20_1) = call_method ev k x20_0 x20_1"
  "run ev k (AddSongToPlaylist x21_0) = add_song_to_playlist ev k x21_0"
  "run ev k (AddAlbumToPlaylist x22_0) = add_album_to_playlist ev k x22_0"
  "run ev k ClearPlaylist = clear_playlist ev k"
  "run ev k GetArtists = get_artists ev k"
  "run ev k (GetAlbums x25_0) = get_albums ev k x25_0"
  "run ev k (GetSongs x26_0) = get_songs ev k x26_0"
  "run ev k GetPlayers = get_players ev k"
  "run ev k (SendNotification x28_0 x28_1 x28_2 x28_3) = send_notification ev k x28_0 x28_1 x28_2 x28_3"
  by (rule ext, simp)+

lemma na_run: "op \<noteq> Ping \<Longrightarrow> raises_no_auth_error (run ev k op)"
  by (cases op)
     (simp_all add: run_ext op_defs[abs_def] Let_def, (intro na_intros | simp)+)



lemma starts_with_iff: "starts_with s sub \<longleftrightarrow> (\<exists>ss. s = sub @ ss)"
  by (induction s sub rule: starts_with.induct) auto

lemma contains_iff: "contains s sub \<longleftrightarrow> (\<exists>ps ss. s = ps @ sub @ ss)"
proof (induction s)
  case Nil
  then show ?case by simp
next
  case (Cons c cs)
  show ?case
  proof
    assume "contains (c # cs) sub"
    then consider "starts_with (c # cs) sub" | "contains cs sub" by auto
    then show "\<exists>ps ss. c # cs = ps @ sub @ ss"
    proof cases
      case 1
      then obtain ss where "c # cs = [] @ sub @ ss" by (auto simp add: starts_with_iff)
      then show ?thesis by blast
    next
      case 2
      with Cons obtain ps ss where "cs = ps @ sub @ ss" by blast
      then have "c # cs = (c # ps) @ sub @ ss" by simp
      then show ?thesis by blast
    qed
  next
    assume "\<exists>ps ss. c # cs = ps @ sub @ ss"
    then obtain ps ss where e: "c # cs = ps @ sub @ ss" by blast
    show "contains (c # cs) sub"
    proof (cases ps)
      case Nil
      with e have "starts_with (c # cs) sub" by (auto simp add: starts_with_iff)
      then show ?thesis by simp
    next
      case (Cons p ps')
      with e have "cs = ps' @ sub @ ss" by simp
      with Cons.IH have "contains cs sub" by blast
      then show ?thesis by simp
    qed
  qed
qed

lemma ping_outcomes:
  assumes "server k = Some h"
  shows "reply ev (log w) h (Rpc ''JSONRPC.Ping'' [] []) = Inr v \<Longrightarrow>
           fst (ping ev k w) = Inr (PBool (v = PStr ''pong''))"
    and "reply ev (log w) h (Rpc ''JSONRPC.Ping'' [] []) = Inl (TransportError msg) \<Longrightarrow>
           fst (ping ev k w)
             = Inl (if contains msg ''401'' then InvalidAuthError else CannotConnectError)"
    and "reply ev (log w) h (Rpc ''JSONRPC.Ping'' [] []) = Inl (ProtocolError msg) \<Longrightarrow>
           fst (ping ev k w) = Inl (Lib (ProtocolError msg))"
    and "reply ev (log w) h (Rpc ''JSONRPC.Ping'' [] []) = Inl (OtherLibError msg) \<Longrightarrow>
           fst (ping ev k w) = Inl (Lib (OtherLibError msg))"
  using assms by (simp_all add: ping_def method_call_def)

lemma ping_true_iff:
  "fst (ping ev k w) = Inr (PBool True) \<longleftrightarrow>
     (\<exists>h. server k = Some h
          \<and> reply ev (log w) h (Rpc ''JSONRPC.Ping'' [] []) = Inr (PStr ''pong''))"
proof (cases "server k")
  case None
  then show ?thesis by (simp add: ping_def method_call_def)
next
  case (Some h)
  show ?thesis
  proof (cases "reply ev (log w) h (Rpc ''JSONRPC.Ping'' [] [])")
    case (Inl e)
    with Some show ?thesis
      by (cases e) (simp_all add: ping_def method_call_def)
  next
    case (Inr v)
    with Some show ?thesis
      by (simp add: ping_def method_call_def)
  qed
qed

lemma connect_no_auth: "fst (connect ev a w) \<noteq> Inl InvalidAuthError"
  by (auto simp add: connect_def ws_connect_def Let_def
      split: option.splits variant.splits prod.splits lib_error.splits)

lemma close_no_auth: "fst (close a w) \<noteq> Inl InvalidAuthError"
  by (simp add: close_def Let_def split: option.splits variant.splits)

lemma thumbnail_url_no_auth: "thumbnail_url nv c t \<noteq> Inl InvalidAuthError"
  by (auto simp add: thumbnail_url_def urlparse_scheme_def Let_def
      split: option.splits sum.splits prod.splits if_splits)

text \<open>
  C3. \<open>ping\<close> returns \<open>True\<close> exactly when the client has a handle and the remote's reply
  is the string \<open>pong\<close>; any other reply gives \<open>False\<close>. A \<open>TransportError\<close> whose text
  contains \<open>401\<close> (as a contiguous substring) becomes \<open>InvalidAuthError\<close>, any other
  \<open>TransportError\<close> becomes \<open>CannotConnectError\<close>. No other client operation, nor
  \<open>connect\<close>, \<open>close\<close> or \<open>thumbnail_url\<close>, ever raises \<open>InvalidAuthError\<close>.
\<close>

theorem ping_classifies_transport_errors:
  "(fst (ping ev k w) = Inr (PBool True) \<longleftrightarrow>
      (\<exists>h. server k = Some h
           \<and> reply ev (log w) h (Rpc ''JSONRPC.Ping'' [] []) = Inr (PStr ''pong'')))
   \<and> (server k = Some h \<and> reply ev (log w) h (Rpc ''JSONRPC.Ping'' [] []) = Inr v \<longrightarrow>
        fst (ping ev k w) = Inr (PBool (v = PStr ''pong'')))
   \<and> (server k = Some h
        \<and> reply ev (log w) h (Rpc ''JSONRPC.Ping'' [] []) = Inl (TransportError msg) \<longrightarrow>
        fst (ping ev k w)
          = Inl (if contains msg ''401'' then InvalidAuthError else CannotConnectError))
   \<and> (contains msg ''401'' \<longleftrightarrow> (\<exists>ps ss. msg = ps @ ''401'' @ ss))
   \<and> (op \<noteq> Ping \<longrightarrow> fst (run ev k op w) \<noteq> Inl InvalidAuthError)
   \<and> fst (connect ev a w) \<noteq> Inl InvalidAuthError
   \<and> fst (close a w) \<noteq> Inl InvalidAuthError
   \<and> thumbnail_url nv c t \<noteq> Inl InvalidAuthError"
proof (intro conjI impI)
  assume "op \<noteq> Ping"
  from na_run[OF this, of ev k] show "fst (run ev k op w) \<noteq> Inl InvalidAuthError"
    by (simp add: raises_no_auth_error_def)
qed (simp_all add: ping_true_iff ping_outcomes contains_iff connect_no_auth close_no_auth
    thumbnail_url_no_auth)

theorem ping_classifies_transport_errors_witness:
  "fst (ping (answering (PStr ''pong'')) example_client empty_world) = Inr (PBool True)
   \<and> fst (ping (answering (PStr ''ping'')) example_client empty_world) = Inr (PBool False)
   \<and> fst (ping (failing ''HTTP 401 Unauthorized'') example_client empty_world)
        = Inl InvalidAuthError
   \<and> fst (ping (failing ''Cannot connect to host'') example_client empty_world)
        = Inl CannotConnectError
   \<and> fst (run (failing ''HTTP 401 Unauthorized'') example_client VolumeUp empty_world)
        \<noteq> Inl InvalidAuthError"
proof -
  have k: "server example_client = Some 1" by (simp add: example_client_def)
  have r1: "server example_client = Some 1
      \<and> reply (answering (PStr ''pong'')) (log empty_world) 1 (Rpc ''JSONRPC.Ping'' [] [])
          = Inr (PStr ''pong'')"
    by (simp add: k answering_def)
  have r2: "server example_client = Some 1
      \<and> reply (answering (PStr ''ping'')) (log empty_world) 1 (Rpc ''JSONRPC.Ping'' [] [])
          = Inr (PStr ''ping'')"
    by (simp add: k answering_def)
  have r3: "server example_client = Some 1
      \<and> reply (failing ''HTTP 401 Unauthorized'') (log empty_world) 1 (Rpc ''JSONRPC.Ping'' [] [])
          = Inl (TransportError ''HTTP 401 Unauthorized'')"
    by (simp add: k failing_def)
  have r4: "server example_client = Some 1
      \<and> reply (failing ''Cannot connect to host'') (log empty_world) 1 (Rpc ''JSONRPC.Ping'' [] [])
          = Inl (TransportError ''Cannot connect to host'')"
    by (simp add: k failing_def)
  have o: "VolumeUp \<noteq> Ping" by simp
  note T = ping_classifies_transport_errors[where k=example_client and w=empty_world and h=1]
  note a = T[where ev="answering (PStr ''pong'')" and v="PStr ''pong''",
      THEN conjunct2, THEN conjunct1, THEN mp, OF r1]
  note b = T[where ev="answering (PStr ''ping'')" and v="PStr ''ping''",
      THEN conjunct2, THEN conjunct1, THEN mp, OF r2]
  note c = T[where ev="failing ''HTTP 401 Unauthorized''" and msg="''HTTP 401 Unauthorized''",
      THEN conjunct2, THEN conjunct2, THEN conjunct1, THEN mp, OF r3]
  note d = T[where ev="failing ''Cannot connect to host''" and msg="''Cannot connect to host''",
      THEN conjunct2, THEN conjunct2, THEN conjunct1, THEN mp, OF r4]
  note e = T[where ev="failing ''HTTP 401 Unauthorized''" and op=VolumeUp,
      THEN conjunct2, THEN conjunct2, THEN conjunct2, THEN conjunct2, THEN conjunct1,
      THEN mp, OF o]
  from a b c d e show ?thesis by simp
qed




lemmas player_defs =
  set_play_state_def play_pause_def play_def pause_def stop_def goto_def next_track_def
  previous_track_def media_seek_def set_shuffle_def get_players_def

text \<open>
  C1, as the code has it. For play, pause, the play/pause toggle, stop, next track,
  previous track, seek-to-position and set shuffle: when the remote answers the
  active-player query with the empty list, the operation returns \<open>None\<close> and the query is
  the only request sent. Volume up, volume down, set volume level and mute never ask for
  the players: each sends exactly its own request, whatever the remote answers, returns
  \<open>None\<close> when the remote replies, and lets the library's exception through unchanged when
  the request fails.
\<close>

theorem player_commands_without_player:
  "(server k = Some h
      \<and> reply ev (log w) h (Rpc ''Player.GetActivePlayers'' [] []) = Inr (PList [])
      \<and> player_command op \<longrightarrow>
        run ev k op w
          = (Inr PNone, w\<lparr>log := log w @ [Sent h (Rpc ''Player.GetActivePlayers'' [] [])]\<rparr>))
   \<and> (server k = Some h \<longrightarrow>
        (let r = Rpc ''Input.ExecuteAction'' [PStr ''volumeup''] []
         in run ev k VolumeUp w
              = (case reply ev (log w) h r of Inl e \<Rightarrow> Inl (Lib e) | Inr v \<Rightarrow> Inr PNone,
                 w\<lparr>log := log w @ [Sent h r]\<rparr>))
      \<and> (let r = Rpc ''Input.ExecuteAction'' [PStr ''volumedown''] []
         in run ev k VolumeDown w
              = (case reply ev (log w) h r of Inl e \<Rightarrow> Inl (Lib e) | Inr v \<Rightarrow> Inr PNone,
                 w\<lparr>log := log w @ [Sent h r]\<rparr>))
      \<and> (let r = Rpc ''Application.SetVolume'' [volume] []
         in run ev k (SetVolumeLevel volume) w
              = (case reply ev (log w) h r of Inl e \<Rightarrow> Inl (Lib e) | Inr v \<Rightarrow> Inr PNone,
                 w\<lparr>log := log w @ [Sent h r]\<rparr>))
      \<and> (let r = Rpc ''Application.SetMute'' [m] []
         in run ev k (Mute m) w
              = (case reply ev (log w) h r of Inl e \<Rightarrow> Inl (Lib e) | Inr v \<Rightarrow> Inr PNone,
                 w\<lparr>log := log w @ [Sent h r]\<rparr>)))"
proof (intro conjI impI)
  assume a: "server k = Some h
      \<and> reply ev (log w) h (Rpc ''Player.GetActivePlayers'' [] []) = Inr (PList [])
      \<and> player_command op"
  then show "run ev k op w
          = (Inr PNone, w\<lparr>log := log w @ [Sent h (Rpc ''Player.GetActivePlayers'' [] [])]\<rparr>)"
    by (cases op)
       (simp_all add: player_defs invoke_def method_call_def bind_def with_first_player_def
         Let_def)
qed (simp_all add: volume_up_def volume_down_def set_volume_level_def mute_def invoke_def
    method_call_def bind_def discard_def Let_def split: sum.splits)

text \<open>
  C1, as stated, fails for the volume operations: with a remote that reports no active
  player and fails every other request, \<open>volume_up\<close> sends \<open>Input.ExecuteAction\<close> and
  raises the transport error.
\<close>

theorem volume_up_without_player_counterexample:
  "reply no_players_else_failing (log empty_world) 1 (Rpc ''Player.GetActivePlayers'' [] [])
     = Inr (PList [])
   \<and> run no_players_else_failing example_client VolumeUp empty_world
     = (Inl (Lib (TransportError ''Error calling method'')),
        empty_world\<lparr>log := [Sent 1 (Rpc ''Input.ExecuteAction'' [PStr ''volumeup''] [])]\<rparr>)"
  by (simp add: no_players_else_failing_def example_client_def empty_world_def volume_up_def
      invoke_def method_call_def bind_def discard_def)

theorem player_commands_without_player_witness:
  "run (answering (PList [])) example_client Play empty_world
     = (Inr PNone, empty_world\<lparr>log := [Sent 1 (Rpc ''Player.GetActivePlayers'' [] [])]\<rparr>)
   \<and> run (answering (PList [])) example_client (MediaSeek (7 / 2)) empty_world
     = (Inr PNone, empty_world\<lparr>log := [Sent 1 (Rpc ''Player.GetActivePlayers'' [] [])]\<rparr>)
   \<and> run (answering (PList [])) example_client (Mute (PBool True)) empty_world
     = (Inr PNone, empty_world\<lparr>log := [Sent 1 (Rpc ''Application.SetMute'' [PBool True] [])]\<rparr>)
   \<and> run (failing ''connection reset'') example_client (Mute (PBool True)) empty_world
     = (Inl (Lib (TransportError ''connection reset'')),
        empty_world\<lparr>log := [Sent 1 (Rpc ''Application.SetMute'' [PBool True] [])]\<rparr>)
   \<and> run (failing ''connection reset'') example_client (SetVolumeLevel (PInt 40)) empty_world
     = (Inl (Lib (TransportError ''connection reset'')),
        empty_world\<lparr>log := [Sent 1 (Rpc ''Application.SetVolume'' [PInt 40] [])]\<rparr>)"
proof -
  have k: "server example_client = Some 1" by (simp add: example_client_def)
  have h1: "server example_client = Some 1
      \<and> reply (answering (PList [])) (log empty_world) 1 (Rpc ''Player.GetActivePlayers'' [] [])
          = Inr (PList [])
      \<and> player_command Play"
    by (simp add: k answering_def)
  have h2: "server example_client = Some 1
      \<and> reply (answering (PList [])) (log empty_world) 1 (Rpc ''Player.GetActivePlayers'' [] [])
          = Inr (PList [])
      \<and> player_command (MediaSeek (7 / 2))"
    by (simp add: k answering_def)
  note T = player_commands_without_player[where k=example_client and w=empty_world and h=1]
  note a = T[where ev="answering (PList [])" and op=Play, THEN conjunct1, THEN mp, OF h1]
  note b = T[where ev="answering (PList [])" and op="MediaSeek (7 / 2)",
      THEN conjunct1, THEN mp, OF h2]
  note c = T[where ev="answering (PList [])" and m="PBool True", THEN conjunct2, THEN mp, OF k]
  note d = T[where ev="failing ''connection reset''" and m="PBool True"
      and volume="PInt 40", THEN conjunct2, THEN mp, OF k]
  from a b c d show ?thesis
    by (simp add: empty_world_def answering_def failing_def Let_def)
qed














section \<open>The seek position\<close>

subsection \<open>Rounding to a float\<close>

declare bit_length.simps [simp del]

lemma bit_length_bounds:
  "0 < n \<Longrightarrow> 2 ^ (bit_length n - 1) \<le> n \<and> n < 2 ^ bit_length n"
proof (induction n rule: bit_length.induct)
  case (1 n)
  show ?case
  proof (cases "n div 2 = 0")
    case True
    with 1(2) have "n = Suc 0" by (simp add: div_eq_0_iff)
    then show ?thesis
      by (simp add: bit_length.simps[of "Suc 0"] bit_length.simps[of 0])
  next
    case False
    with 1 have ih: "2 ^ (bit_length (n div 2) - 1) \<le> n div 2"
      "n div 2 < 2 ^ bit_length (n div 2)"
      by simp_all
    have pos: "0 < bit_length (n div 2)"
      using False by (simp add: bit_length.simps[of "n div 2"])
    have bl: "bit_length n = Suc (bit_length (n div 2))"
      using 1(2) by (simp add: bit_length.simps[of n])
    from pos have "(2::nat) ^ bit_length (n div 2) = 2 * 2 ^ (bit_length (n div 2) - 1)"
      by (cases "bit_length (n div 2)") simp_all
    with ih have "2 ^ bit_length (n div 2) \<le> n" "n < 2 * 2 ^ bit_length (n div 2)"
      by linarith+
    with bl show ?thesis by simp
  qed
qed

lemma bit_length_pos: "0 < n \<Longrightarrow> 0 < bit_length n"
  by (simp add: bit_length.simps[of n])

text \<open>The binary exponent brackets its argument.\<close>

lemma ilog2_bounds:
  assumes "0 < x"
  shows "2 powi ilog2 x \<le> x" and "x < 2 powi (ilog2 x + 1)"
proof -
  have "2 powi ilog2 x \<le> x \<and> x < 2 powi (ilog2 x + 1)"
  proof (cases "1 \<le> x")
    case True
    define n where "n = nat \<lfloor>x\<rfloor>"
    define b where "b = bit_length n"
    from True have fl: "1 \<le> \<lfloor>x\<rfloor>" by simp
    then have n: "0 < n" "of_nat n = (of_int \<lfloor>x\<rfloor> :: rat)"
      by (simp_all add: n_def)
    from bit_length_bounds[OF n(1)] have bb: "2 ^ (b - 1) \<le> n" "n < 2 ^ b"
      by (simp_all add: b_def)
    from bit_length_pos[OF n(1)] have bp: "0 < b" by (simp add: b_def)
    have il: "ilog2 x = int (b - 1)" "ilog2 x + 1 = int b"
      using True bp by (simp_all add: ilog2_def n_def b_def)
    have "(2::rat) ^ (b - 1) = of_nat (2 ^ (b - 1))" by simp
    also from bb(1) have "\<dots> \<le> of_nat n" by (rule of_nat_mono)
    also have "\<dots> = of_int \<lfloor>x\<rfloor>" by (rule n(2))
    also have "\<dots> \<le> x" by (rule of_int_floor_le)
    finally have lo: "(2::rat) ^ (b - 1) \<le> x" .
    from bb(2) have "n + 1 \<le> 2 ^ b" by simp
    then have "(of_nat (n + 1) :: rat) \<le> of_nat (2 ^ b)"
      by (rule of_nat_mono)
    then have "(of_nat n :: rat) + 1 \<le> 2 ^ b"
      by simp
    then have "of_int \<lfloor>x\<rfloor> + 1 \<le> (2::rat) ^ b"
      by (simp only: n(2))
    moreover have "x < of_int \<lfloor>x\<rfloor> + 1" by linarith
    ultimately have hi: "x < (2::rat) ^ b" by linarith
    have "(2::rat) powi ilog2 x = 2 ^ (b - 1)"
      by (simp only: il(1) power_int_of_nat)
    moreover have "(2::rat) powi (ilog2 x + 1) = 2 ^ b"
      by (simp only: il(2) power_int_of_nat)
    ultimately show ?thesis using lo hi by simp
  next
    case False
    define y where "y = 1 / x"
    define c where "c = \<lceil>y\<rceil>"
    define m where "m = nat (c - 1)"
    define b where "b = bit_length m"
    from False assms have y1: "1 < y" by (simp add: y_def)
    then have c2: "2 \<le> c" unfolding c_def by linarith
    then have m: "0 < m" "of_nat m = (of_int c :: rat) - 1"
      by (simp_all add: m_def)
    from bit_length_bounds[OF m(1)] have bb: "2 ^ (b - 1) \<le> m" "m < 2 ^ b"
      by (simp_all add: b_def)
    from bit_length_pos[OF m(1)] have bp: "0 < b" by (simp add: b_def)
    have il: "ilog2 x = - int b"
      using False by (simp add: ilog2_def y_def c_def m_def b_def)
    from bb(2) have "m + 1 \<le> 2 ^ b" by simp
    then have "(of_nat (m + 1) :: rat) \<le> of_nat (2 ^ b)"
      by (rule of_nat_mono)
    then have "(of_nat m :: rat) + 1 \<le> 2 ^ b"
      by simp
    then have "of_int c \<le> (2::rat) ^ b"
      by (simp only: m(2))
    moreover have "y \<le> of_int c" unfolding c_def by linarith
    ultimately have "y \<le> 2 ^ b" by linarith
    then have "1 / x \<le> 2 ^ b" unfolding y_def .
    then have "1 \<le> 2 ^ b * x"
      using assms by (simp only: pos_divide_le_eq)
    then have lo: "1 / 2 ^ b \<le> x"
      by (simp add: pos_divide_le_eq mult.commute)
    have "(2::rat) ^ (b - 1) = of_nat (2 ^ (b - 1))" by simp
    also from bb(1) have "\<dots> \<le> of_nat m" by (rule of_nat_mono)
    also have "\<dots> = of_int c - 1" by (rule m(2))
    finally have "(2::rat) ^ (b - 1) \<le> of_int c - 1" .
    moreover have "of_int c - 1 < y" unfolding c_def by linarith
    ultimately have "2 ^ (b - 1) < y" by linarith
    then have "2 ^ (b - 1) < 1 / x" unfolding y_def .
    then have "2 ^ (b - 1) * x < 1"
      using assms by (simp only: pos_less_divide_eq)
    then have hi: "x < 1 / 2 ^ (b - 1)"
      by (simp add: pos_less_divide_eq mult.commute)
    have e1: "(2::rat) powi (- int b) = 1 / 2 ^ b"
      by (simp only: power_int_minus_divide power_int_of_nat)
    have "- int b + 1 = - int (b - 1)" using bp by simp
    then have "(2::rat) powi (- int b + 1) = 2 powi (- int (b - 1))"
      by (simp only:)
    also have "\<dots> = 1 / 2 ^ (b - 1)"
      by (simp only: power_int_minus_divide power_int_of_nat)
    finally have e2: "(2::rat) powi (- int b + 1) = 1 / 2 ^ (b - 1)" .
    from lo hi show ?thesis by (simp only: il e1 e2)
  qed
  then show "2 powi ilog2 x \<le> x" and "x < 2 powi (ilog2 x + 1)" by simp_all
qed

text \<open>Rounding to an integer moves a number by at most one half.\<close>

lemma round_half_even_cases:
  "round_half_even y = \<lfloor>y\<rfloor> \<and> y - of_int \<lfloor>y\<rfloor> \<le> 1 / 2
   \<or> round_half_even y = \<lfloor>y\<rfloor> + 1 \<and> 1 / 2 \<le> y - of_int \<lfloor>y\<rfloor>"
  unfolding round_half_even_def Let_def
  by (cases "y - of_int \<lfloor>y\<rfloor> < 1 / 2"; cases "1 / 2 < y - of_int \<lfloor>y\<rfloor>"; cases "even \<lfloor>y\<rfloor>")
     (simp_all only: if_True if_False, linarith+)

lemma round_half_even_error: "\<bar>of_int (round_half_even y) - y\<bar> \<le> 1 / 2"
proof -
  have f: "of_int \<lfloor>y\<rfloor> \<le> y" "y < of_int \<lfloor>y\<rfloor> + 1" by linarith+
  from round_half_even_cases[of y] show ?thesis
  proof
    assume "round_half_even y = \<lfloor>y\<rfloor> \<and> y - of_int \<lfloor>y\<rfloor> \<le> 1 / 2"
    with f show ?thesis by simp
  next
    assume a: "round_half_even y = \<lfloor>y\<rfloor> + 1 \<and> 1 / 2 \<le> y - of_int \<lfloor>y\<rfloor>"
    then have "of_int (round_half_even y) = (of_int \<lfloor>y\<rfloor> :: rat) + 1" by simp
    with a f show ?thesis by linarith
  qed
qed

lemma round_half_even_of_int: "round_half_even (of_int k) = k"
  by (simp add: round_half_even_def Let_def)

text \<open>One float operation has a relative error of at most \<open>2 ^ -53\<close>.\<close>

lemma rnd_error:
  assumes "x \<noteq> 0"
  shows "\<bar>rnd x - x\<bar> \<le> \<bar>x\<bar> / 2 ^ 53"
proof -
  define e where "e = ilog2 \<bar>x\<bar>"
  define u :: rat where "u = 2 powi (e - 52)"
  have u: "0 < u" by (simp add: u_def)
  have r: "rnd x = of_int (round_half_even (x / u)) * u"
    using assms by (simp add: rnd_def Let_def u_def e_def)
  have "rnd x - x = (of_int (round_half_even (x / u)) - x / u) * u"
    using u by (simp add: r algebra_simps)
  then have "\<bar>rnd x - x\<bar> = \<bar>of_int (round_half_even (x / u)) - x / u\<bar> * u"
    using u by (simp add: abs_mult)
  also have "\<dots> \<le> 1 / 2 * u"
    using round_half_even_error[of "x / u"] u by (intro mult_right_mono) simp_all
  finally have a: "\<bar>rnd x - x\<bar> \<le> u / 2" by simp
  have "(2::rat) powi (e - 52) = 2 powi e / 2 powi 52"
    by (rule power_int_diff) simp
  then have ue: "u = 2 powi e / 2 ^ 52" by (simp add: u_def)
  from assms have "0 < \<bar>x\<bar>" by simp
  from ilog2_bounds(1)[OF this] have "2 powi e \<le> \<bar>x\<bar>" by (simp add: e_def)
  then have "u / 2 \<le> \<bar>x\<bar> / 2 ^ 53" by (simp add: ue)
  with a show ?thesis by linarith
qed

lemma rnd_nonneg: "0 \<le> x \<Longrightarrow> 0 \<le> rnd x"
proof (cases "x = 0")
  case True
  then show ?thesis by (simp add: rnd_def)
next
  case False
  assume x: "0 \<le> x"
  from rnd_error[OF False] x have e: "\<bar>rnd x - x\<bar> \<le> x / 2 ^ 53" by simp
  have "x / 2 ^ 53 \<le> x / 1"
    using x by (intro divide_left_mono) simp_all
  with e show ?thesis by linarith
qed

text \<open>Integers below \<open>2 ^ 53\<close>, scaled by a power of two, are float values.\<close>

lemma rnd_dyadic:
  assumes "\<bar>k\<bar> < 2 ^ 53"
  shows "rnd (of_int k / 2 ^ j) = of_int k / 2 ^ j"
proof (cases "k = 0")
  case True
  then show ?thesis by (simp add: rnd_def)
next
  case False
  define x :: rat where "x = of_int k / 2 ^ j"
  define e where "e = ilog2 \<bar>x\<bar>"
  define u :: rat where "u = 2 powi (e - 52)"
  define d where "d = 52 - e - int j"
  from False have x0: "x \<noteq> 0" by (simp add: x_def)
  then have "0 < \<bar>x\<bar>" by simp
  from ilog2_bounds(1)[OF this] have lo: "2 powi e \<le> \<bar>x\<bar>" by (simp add: e_def)
  have "\<bar>x\<bar> = of_int \<bar>k\<bar> / 2 ^ j" by (simp add: x_def)
  also have "\<dots> < 2 ^ 53 / 2 ^ j"
  proof -
    from assms have "(of_int \<bar>k\<bar> :: rat) < of_int (2 ^ 53)" by (simp only: of_int_less_iff)
    then have "(of_int \<bar>k\<bar> :: rat) < 2 ^ 53" by simp
    then show ?thesis by (simp add: divide_strict_right_mono)
  qed
  also have "\<dots> = 2 powi (53 - int j)"
  proof -
    have "(2::rat) powi (53 - int j) = 2 powi 53 / 2 powi (int j)"
      by (rule power_int_diff) simp
    then show ?thesis by simp
  qed
  finally have hi: "\<bar>x\<bar> < 2 powi (53 - int j)" .
  have "e < 53 - int j"
  proof (rule ccontr)
    assume "\<not> e < 53 - int j"
    then have "53 - int j \<le> e" by simp
    then have "(2::rat) powi (53 - int j) \<le> 2 powi e"
      by (rule power_int_increasing) simp
    with lo hi show False by linarith
  qed
  then have d0: "0 \<le> d" by (simp add: d_def)
  have "u * 2 powi (int j) * 2 powi d = 2 powi (e - 52 + int j + d)"
    by (simp add: u_def power_int_add)
  also have "e - 52 + int j + d = 0" by (simp add: d_def)
  finally have "u * 2 ^ j * 2 powi d = 1" by simp
  moreover have "(2::rat) powi d = 2 ^ nat d"
    using d0 by (rule power_int_nonneg_exp)
  ultimately have one: "u * 2 ^ j * 2 ^ nat d = 1" by simp
  have u: "0 < u" by (simp add: u_def)
  have "x = x * (u * 2 ^ j * 2 ^ nat d)" by (simp only: one mult_1_right)
  also have "\<dots> = (x * 2 ^ j) * 2 ^ nat d * u" by (simp only: mult_ac)
  also have "x * 2 ^ j = of_int k" by (simp add: x_def)
  finally have xk: "x = of_int (k * 2 ^ nat d) * u" by simp
  then have "x / u = of_int (k * 2 ^ nat d)" using u by simp
  then have "round_half_even (x / u) = k * 2 ^ nat d"
    by (simp only: round_half_even_of_int)
  then have "rnd x = of_int (k * 2 ^ nat d) * u"
    using x0 by (simp add: rnd_def Let_def u_def e_def)
  with xk show ?thesis by (simp add: x_def)
qed

lemma rnd_of_int: "\<bar>k\<bar> < 2 ^ 53 \<Longrightarrow> rnd (of_int k) = of_int k"
  using rnd_dyadic[of k 0] by simp

subsection \<open>The two divisions by 60\<close>

text \<open>
  The quotient of an integer below \<open>2 ^ 48\<close> by 60 is rounded by less than its distance to
  the next integer, so the whole part of the float quotient is the integer quotient.
\<close>

lemma floor_divide_60: "\<lfloor>x / 60\<rfloor> = \<lfloor>x\<rfloor> div 60" for x :: rat
proof (rule floor_unique)
  define f where "f = \<lfloor>x\<rfloor>"
  have fx: "of_int f \<le> x" "x < of_int f + 1" unfolding f_def by linarith+
  have d: "60 * (f div 60) \<le> f" "f < 60 * (f div 60) + 60"
    by presburger+
  from d(1) have "(of_int (60 * (f div 60)) :: rat) \<le> of_int f" by (simp only: of_int_le_iff)
  with fx(1) have "60 * of_int (f div 60) \<le> x" by simp
  then show "of_int (\<lfloor>x\<rfloor> div 60) \<le> x / 60" by (simp add: f_def)
  from d(2) have "f + 1 \<le> 60 * (f div 60) + 60" by simp
  then have "(of_int (f + 1) :: rat) \<le> of_int (60 * (f div 60) + 60)" by (simp only: of_int_le_iff)
  with fx(2) have "x < 60 * of_int (f div 60) + 60" by simp
  then show "x / 60 < of_int (\<lfloor>x\<rfloor> div 60) + 1" by (simp add: f_def)
qed


lemma quotient_by_60:
  assumes "0 \<le> n" "n < 2 ^ 48"
  shows "of_int (n div 60) \<le> rnd (of_int n / 60)"
    and "rnd (of_int n / 60) < of_int (n div 60) + 1"
    and "\<bar>rnd (of_int n / 60) - of_int n / 60\<bar> \<le> 1 / 1920"
proof -
  define k where "k = n div 60"
  define r where "r = n mod 60"
  define x :: rat where "x = of_int n / 60"
  have n: "n = 60 * k + r" "0 \<le> r" "r \<le> 59" "0 \<le> k" "k < 2 ^ 48"
    using assms unfolding k_def r_def by presburger+
  have "(of_int n :: rat) = 60 * of_int k + of_int r"
    by (simp only: n(1) of_int_add of_int_mult of_int_numeral)
  then have x: "x = of_int k + of_int r / 60"
    by (simp add: x_def)
  have "of_int k \<le> rnd x \<and> rnd x < of_int k + 1 \<and> \<bar>rnd x - x\<bar> \<le> 1 / 1920"
  proof (cases "r = 0")
    case True
    from n(4,5) have "\<bar>k\<bar> < 2 ^ 53" by simp
    then have "rnd (of_int k) = of_int k" by (rule rnd_of_int)
    with True x show ?thesis by simp
  next
    case False
    with n(2) have "1 \<le> r" by simp
    then have "(of_int 1 :: rat) \<le> of_int r" by (simp only: of_int_le_iff)
    then have r1: "(1::rat) \<le> of_int r" by simp
    from n(3) have "(of_int r :: rat) \<le> of_int 59" by (simp only: of_int_le_iff)
    then have r2: "(of_int r :: rat) \<le> 59" by simp
    from n(4) have "(of_int 0 :: rat) \<le> of_int k" by (simp only: of_int_le_iff)
    then have k0: "(0::rat) \<le> of_int k" by simp
    from assms(2) have "(of_int n :: rat) < of_int (2 ^ 48)" by (simp only: of_int_less_iff)
    then have "(of_int n :: rat) < 281474976710656" by simp
    then have xu: "x < 281474976710656 / 60" by (simp add: x_def)
    from x r1 k0 have xl: "1 / 60 \<le> x" by simp
    then have "x \<noteq> 0" "\<bar>x\<bar> = x" by simp_all
    with rnd_error[of x] have "\<bar>rnd x - x\<bar> \<le> x / 2 ^ 53" by simp
    moreover from xu have "x / 2 ^ 53 \<le> 1 / 1920" by simp
    ultimately have e: "\<bar>rnd x - x\<bar> \<le> 1 / 1920" by linarith
    from x r1 have "of_int k + 1 / 60 \<le> x" by simp
    moreover from x r2 have "x \<le> of_int k + 59 / 60" by simp
    ultimately show ?thesis using e by (intro conjI) linarith+
  qed
  then show "of_int (n div 60) \<le> rnd (of_int n / 60)"
    and "rnd (of_int n / 60) < of_int (n div 60) + 1"
    and "\<bar>rnd (of_int n / 60) - of_int n / 60\<bar> \<le> 1 / 1920"
    by (simp_all add: x_def k_def)
qed


lemma quotient_by_3600:
  assumes "0 \<le> n" "n < 2 ^ 48"
  shows "of_int (n div 3600) \<le> rnd (rnd (of_int n / 60) / 60)"
    and "rnd (rnd (of_int n / 60) / 60) < of_int (n div 3600) + 1"
proof -
  define h where "h = n div 3600"
  define t where "t = n mod 3600"
  define q where "q = rnd (of_int n / 60)"
  define x :: rat where "x = of_int n / 3600"
  have n1: "n = 3600 * h + t"
    unfolding h_def t_def by simp
  have n2: "0 \<le> t" "t < 3600"
    unfolding t_def by simp_all
  have n4: "0 \<le> h"
    using assms(1) unfolding h_def by (simp add: pos_imp_zdiv_nonneg_iff)
  from n1 n2(1) have n5: "3600 * h \<le> n" by linarith
  note n = n1 n2(1) n2(2) n4 n5
  have "(of_int n :: rat) = 3600 * of_int h + of_int t"
    by (simp only: n(1) of_int_add of_int_mult of_int_numeral)
  then have x: "x = of_int h + of_int t / 3600"
    by (simp add: x_def)
  have "of_int h \<le> rnd (q / 60) \<and> rnd (q / 60) < of_int h + 1"
  proof (cases "t = 0")
    case True
    from assms(2) have nb: "n < 281474976710656" by simp
    from True n(1) have a: "(of_int n :: rat) / 60 = of_int (60 * h)" by simp
    from n(4,5) nb have "\<bar>60 * h\<bar> < 9007199254740992" by linarith
    then have "\<bar>60 * h\<bar> < 2 ^ 53" by simp
    then have b: "rnd (of_int (60 * h)) = of_int (60 * h)" by (rule rnd_of_int)
    have "q = of_int (60 * h)" unfolding q_def a by (rule b)
    then have c: "q / 60 = of_int h" by simp
    from n(4,5) nb have "\<bar>h\<bar> < 9007199254740992" by linarith
    then have "\<bar>h\<bar> < 2 ^ 53" by simp
    then have "rnd (of_int h) = of_int h" by (rule rnd_of_int)
    then show ?thesis unfolding c by simp
  next
    case False
    with n(2) have "1 \<le> t" by simp
    then have "(of_int 1 :: rat) \<le> of_int t" by (simp only: of_int_le_iff)
    then have t1: "(1::rat) \<le> of_int t" by simp
    from n(3) have "t \<le> 3599" by simp
    then have "(of_int t :: rat) \<le> of_int 3599" by (simp only: of_int_le_iff)
    then have t2: "(of_int t :: rat) \<le> 3599" by simp
    from n(4) have "(of_int 0 :: rat) \<le> of_int h" by (simp only: of_int_le_iff)
    then have h0: "(0::rat) \<le> of_int h" by simp
    from assms(2) have "(of_int n :: rat) < of_int (2 ^ 48)" by (simp only: of_int_less_iff)
    then have "(of_int n :: rat) < 281474976710656" by simp
    then have xu: "x < 281474976710656 / 3600" by (simp add: x_def)
    from x t1 have xl: "of_int h + 1 / 3600 \<le> x" by simp
    from x t2 have xh: "x \<le> of_int h + 3599 / 3600" by simp
    from quotient_by_60(3)[OF assms] have "\<bar>q - of_int n / 60\<bar> \<le> 1 / 1920"
      by (simp add: q_def)
    then have "\<bar>q - of_int n / 60\<bar> / 60 \<le> 1 / 1920 / 60"
      by (intro divide_right_mono) simp_all
    moreover have "\<bar>q / 60 - x\<bar> = \<bar>q - of_int n / 60\<bar> / 60"
    proof -
      have "q / 60 - x = (q - of_int n / 60) / 60" by (simp add: x_def field_simps)
      then show ?thesis by (simp only: abs_divide)
    qed
    ultimately have d: "\<bar>q / 60 - x\<bar> \<le> 1 / 115200" by simp
    with xl h0 have pos: "0 < q / 60" by linarith
    then have "q / 60 \<noteq> 0" "\<bar>q / 60\<bar> = q / 60" by simp_all
    with rnd_error[of "q / 60"] have "\<bar>rnd (q / 60) - q / 60\<bar> \<le> q / 60 / 2 ^ 53" by simp
    moreover from d xu have "q / 60 \<le> 137438953472" by linarith
    then have "q / 60 / 2 ^ 53 \<le> 137438953472 / 2 ^ 53"
      by (intro divide_right_mono) simp_all
    ultimately have e: "\<bar>rnd (q / 60) - q / 60\<bar> \<le> 1 / 65536" by simp
    from d e xl xh show ?thesis by (intro conjI) linarith+
  qed
  then show "of_int (n div 3600) \<le> rnd (rnd (of_int n / 60) / 60)"
    and "rnd (rnd (of_int n / 60) / 60) < of_int (n div 3600) + 1"
    by (simp_all add: q_def h_def)
qed

subsection \<open>The fractional part\<close>

text \<open>Rounding never crosses an integer below the exact value.\<close>

lemma rnd_ge_int:
  assumes "0 \<le> k" "of_int k \<le> y" "y < 2 ^ 53"
  shows "of_int k \<le> rnd y"
proof (cases "k = 0")
  case True
  with assms(2) have "0 \<le> y" by simp
  then have "0 \<le> rnd y" by (rule rnd_nonneg)
  with True show ?thesis by simp
next
  case False
  with assms(1) have "1 \<le> k" by simp
  then have "(1 :: rat) \<le> of_int k" by simp
  with assms(2) have y1: "1 \<le> y" by linarith
  then have y0: "0 < y" "y \<noteq> 0" "\<bar>y\<bar> = y" by simp_all
  define e where "e = ilog2 y"
  from ilog2_bounds(1)[OF y0(1)] have le: "2 powi e \<le> y" by (simp only: e_def)
  have "e < 53"
  proof (rule ccontr)
    assume "\<not> e < 53"
    then have "53 \<le> e" by simp
    then have "(2 :: rat) powi 53 \<le> 2 powi e" by (rule power_int_increasing) simp
    with le assms(3) show False by simp
  qed
  define n where "n = nat (52 - e)"
  with \<open>e < 53\<close> have en: "e - 52 = - int n" by simp
  have u: "(2 :: rat) powi (e - 52) = 1 / 2 ^ n"
    unfolding en by (simp only: power_int_minus_divide power_int_of_nat)
  have r: "rnd y = of_int (round_half_even (y * 2 ^ n)) / 2 ^ n"
    using y0 by (simp add: rnd_def Let_def e_def[symmetric] u)
  from assms(2) have "of_int k * 2 ^ n \<le> y * 2 ^ n" by simp
  then have "(of_int (k * 2 ^ n) :: rat) \<le> y * 2 ^ n" by simp
  then have "k * 2 ^ n \<le> \<lfloor>y * 2 ^ n\<rfloor>" by (simp only: le_floor_iff)
  also from round_half_even_cases[of "y * 2 ^ n"] have "\<dots> \<le> round_half_even (y * 2 ^ n)"
    by linarith
  finally have "(of_int (k * 2 ^ n) :: rat) \<le> of_int (round_half_even (y * 2 ^ n))"
    by (simp only: of_int_le_iff)
  then have "of_int k * 2 ^ n \<le> (of_int (round_half_even (y * 2 ^ n)) :: rat)" by simp
  then have "of_int k \<le> (of_int (round_half_even (y * 2 ^ n)) :: rat) / 2 ^ n"
    by (simp add: pos_le_divide_eq)
  with r show ?thesis by simp
qed

text \<open>
  A float value from one half up is a multiple of \<open>2 ^ -53\<close>, so the fractional part of a
  non-negative float is at most \<open>1 - 2 ^ -53\<close>.
\<close>

lemma representable_scaled:
  assumes "representable p" "1 / 2 \<le> p"
  shows "\<exists>K. p * 2 ^ 53 = of_int K"
proof -
  from assms(2) have p0: "0 < p" "p \<noteq> 0" "\<bar>p\<bar> = p" by simp_all
  define e where "e = ilog2 p"
  from ilog2_bounds(2)[OF p0(1)] have lt: "p < 2 powi (e + 1)" by (simp only: e_def)
  have "- 1 \<le> e"
  proof (rule ccontr)
    assume "\<not> - 1 \<le> e"
    then have "e + 1 \<le> - 1" by simp
    then have "(2 :: rat) powi (e + 1) \<le> 2 powi (- 1)" by (rule power_int_increasing) simp
    also have "\<dots> = 1 / 2" by (simp add: power_int_minus_divide)
    finally show False using lt assms(2) by linarith
  qed
  define n where "n = nat (e + 1)"
  with \<open>- 1 \<le> e\<close> have en: "e - 52 = int n - 53" by simp
  have u: "(2 :: rat) powi (e - 52) = 2 ^ n / 2 ^ 53"
    unfolding en by (simp add: power_int_diff)
  define K where "K = round_half_even (p / (2 ^ n / 2 ^ 53))"
  from assms(1) have "rnd p = p" by (simp only: representable_def)
  then have "p = of_int K * (2 ^ n / 2 ^ 53)"
    using p0 by (simp add: rnd_def Let_def e_def[symmetric] u K_def)
  then have "p * 2 ^ 53 = of_int K * 2 ^ n" by simp
  then have "p * 2 ^ 53 = of_int (K * 2 ^ n)" by simp
  then show ?thesis ..
qed

lemma frac_bound:
  assumes "representable p" "0 \<le> p"
  shows "p - of_int \<lfloor>p\<rfloor> \<le> 1 - 1 / 2 ^ 53"
proof (cases "1 / 2 \<le> p")
  case True
  from representable_scaled[OF assms(1) True] obtain K where K: "p * 2 ^ 53 = of_int K" ..
  define F where "F = K - \<lfloor>p\<rfloor> * 2 ^ 53"
  have "(p - of_int \<lfloor>p\<rfloor>) * 2 ^ 53 = p * 2 ^ 53 - of_int \<lfloor>p\<rfloor> * 2 ^ 53"
    by (simp only: left_diff_distrib)
  also have "\<dots> = of_int F" unfolding K F_def by simp
  finally have F: "(p - of_int \<lfloor>p\<rfloor>) * 2 ^ 53 = of_int F" .
  have "p - of_int \<lfloor>p\<rfloor> < 1" by linarith
  then have "(p - of_int \<lfloor>p\<rfloor>) * 2 ^ 53 < 1 * 2 ^ 53"
    by (simp only: mult_less_cancel_right_pos zero_less_power zero_less_numeral)
  with F have "(of_int F :: rat) < of_int (2 ^ 53)" by simp
  then have "F < 2 ^ 53" by (simp only: of_int_less_iff)
  then have "F \<le> 2 ^ 53 - 1" by simp
  then have "(of_int F :: rat) \<le> of_int (2 ^ 53 - 1)" by (simp only: of_int_le_iff)
  with F have "(p - of_int \<lfloor>p\<rfloor>) * 2 ^ 53 \<le> 2 ^ 53 - 1" by simp
  then have "p - of_int \<lfloor>p\<rfloor> \<le> (2 ^ 53 - 1) / 2 ^ 53"
    by (simp only: pos_le_divide_eq zero_less_power zero_less_numeral)
  then show ?thesis by (simp add: diff_divide_distrib)
next
  case False
  with assms(2) have "\<lfloor>p\<rfloor> = 0" by (intro floor_unique) simp_all
  with False show ?thesis by simp
qed

text \<open>On non-negative arguments \<open>%\<close> is exact.\<close>

lemma fmod_nonneg:
  assumes "0 \<le> x" "0 < w"
  shows "fmod x w = x - of_int \<lfloor>x / w\<rfloor> * w" and "0 \<le> fmod x w" and "fmod x w < w"
proof -
  from assms have "0 \<le> x / w" by simp
  then show a: "fmod x w = x - of_int \<lfloor>x / w\<rfloor> * w" by (simp add: fmod_def trunc_def)
  have "of_int \<lfloor>x / w\<rfloor> \<le> x / w" by linarith
  then have b: "of_int \<lfloor>x / w\<rfloor> * w \<le> x" by (simp only: pos_le_divide_eq[OF assms(2)])
  have "x / w < of_int \<lfloor>x / w\<rfloor> + 1" by linarith
  then have c: "x < (of_int \<lfloor>x / w\<rfloor> + 1) * w" by (simp only: pos_divide_less_eq[OF assms(2)])
  from b show "0 \<le> fmod x w" unfolding a by simp
  from c show "fmod x w < w" unfolding a by (simp add: algebra_simps)
qed

lemma float_mod_nonneg:
  assumes "0 \<le> x" "0 < w"
  shows "float_mod x w = x - of_int \<lfloor>x / w\<rfloor> * w"
  using fmod_nonneg[OF assms] assms(2) by (simp add: float_mod_def Let_def)

lemma minutes_of_quotient:
  assumes "of_int k \<le> q" "q < of_int k + 1" "0 \<le> k"
  shows "trunc (float_mod q 60) = k mod 60"
proof -
  from assms(1,2) have fl: "\<lfloor>q\<rfloor> = k" by (intro floor_unique) simp_all
  from assms(1,3) have q0: "0 \<le> q" by (meson of_int_0_le_iff order_trans)
  have m: "float_mod q 60 = q - of_int (\<lfloor>q / 60\<rfloor> * 60)"
    using float_mod_nonneg[OF q0, of 60] by simp
  from fmod_nonneg(1,2)[OF q0, of 60] float_mod_nonneg[OF q0, of 60]
  have "0 \<le> float_mod q 60" by simp
  then have "trunc (float_mod q 60) = \<lfloor>float_mod q 60\<rfloor>" by (simp add: trunc_def)
  also have "\<dots> = \<lfloor>q\<rfloor> - \<lfloor>q / 60\<rfloor> * 60" unfolding m by (simp only: floor_diff_of_int)
  also have "\<dots> = k - k div 60 * 60" by (simp only: floor_divide_60 fl)
  also have "\<dots> = k mod 60" by (simp add: minus_div_mult_eq_mod)
  finally show ?thesis .
qed

subsection \<open>The fields of the time object\<close>

lemma milliseconds_of_fraction:
  assumes "0 \<le> f" "f \<le> 1 - 1 / 2 ^ 53"
  shows "\<lfloor>f * 1000\<rfloor> \<le> trunc (rnd (f * 1000))"
    and "trunc (rnd (f * 1000)) \<le> 999"
    and "of_int (trunc (rnd (f * 1000))) \<le> f * 1000 * (1 + 1 / 2 ^ 53)"
    and "f * 1000 = of_int j \<Longrightarrow> trunc (rnd (f * 1000)) = j"
proof -
  define y where "y = f * 1000"
  from assms(1) have y0: "0 \<le> y" by (simp add: y_def)
  from assms(2) have "f * 1000 \<le> (1 - 1 / 2 ^ 53) * 1000" by (simp only: mult_le_cancel_right_pos zero_less_numeral)
  then have y1: "y \<le> 1000 - 1000 / 2 ^ 53" by (simp add: y_def)
  from y0 have r0: "0 \<le> rnd y" by (rule rnd_nonneg)
  then have "trunc (rnd y) = \<lfloor>rnd y\<rfloor>" by (simp add: trunc_def)
  then have t: "trunc (rnd (f * 1000)) = \<lfloor>rnd (f * 1000)\<rfloor>" by (simp only: y_def)
  have up: "rnd y \<le> y * (1 + 1 / 2 ^ 53)"
  proof (cases "y = 0")
    case True
    then show ?thesis by (simp add: rnd_def)
  next
    case False
    from rnd_error[OF False] y0 have "\<bar>rnd y - y\<bar> \<le> y / 2 ^ 53" by simp
    then have "rnd y \<le> y + y / 2 ^ 53" by linarith
    also have "\<dots> = y * (1 + 1 / 2 ^ 53)" by (simp add: distrib_left)
    finally show ?thesis .
  qed
  have "of_int \<lfloor>rnd y\<rfloor> \<le> rnd y" by linarith
  with up have "of_int \<lfloor>rnd y\<rfloor> \<le> y * (1 + 1 / 2 ^ 53)" by linarith
  then show "of_int (trunc (rnd (f * 1000))) \<le> f * 1000 * (1 + 1 / 2 ^ 53)"
    by (simp only: t y_def)
  have "y * (1 + 1 / 2 ^ 53) \<le> (1000 - 1000 / 2 ^ 53) * (1 + 1 / 2 ^ 53)"
    using y1 by (intro mult_right_mono) simp_all
  also have "\<dots> < 1000" by simp
  finally have "rnd y < 1000" using up by linarith
  then have "rnd y < of_int 1000" by simp
  then have "\<lfloor>rnd y\<rfloor> < 1000" by (simp only: floor_less_iff)
  then show "trunc (rnd (f * 1000)) \<le> 999" by (simp add: t y_def)
  have "y < 2 ^ 53" using y1 by simp
  have fl0: "0 \<le> \<lfloor>y\<rfloor>" using y0 by simp
  have "of_int \<lfloor>y\<rfloor> \<le> y" by linarith
  with fl0 have "of_int \<lfloor>y\<rfloor> \<le> rnd y" using \<open>y < 2 ^ 53\<close> by (rule rnd_ge_int)
  then have "\<lfloor>y\<rfloor> \<le> \<lfloor>rnd y\<rfloor>" by (simp only: le_floor_iff)
  then show "\<lfloor>f * 1000\<rfloor> \<le> trunc (rnd (f * 1000))" by (simp only: t y_def)
  show "trunc (rnd (f * 1000)) = j" if "f * 1000 = of_int j"
  proof -
    from that have yj: "y = of_int j" by (simp only: y_def)
    with y0 have "0 \<le> j" by simp
    from yj y1 have "(of_int j :: rat) < of_int 1000" by simp
    then have "j < 1000" by (simp only: of_int_less_iff)
    with \<open>0 \<le> j\<close> have "\<bar>j\<bar> < 2 ^ 53" by simp
    then have "rnd (of_int j) = of_int j" by (rule rnd_of_int)
    then have "\<lfloor>rnd y\<rfloor> = j" by (simp add: yj)
    then show ?thesis by (simp only: t y_def)
  qed
qed

lemma seek_time_of_nonneg:
  assumes "representable p" "0 \<le> p" "p < 2 ^ 48"
  shows "seconds (seek_time_of p) = \<lfloor>p\<rfloor> mod 60"
    and "minutes (seek_time_of p) = \<lfloor>p\<rfloor> div 60 mod 60"
    and "hours (seek_time_of p) = \<lfloor>p\<rfloor> div 3600"
    and "milliseconds (seek_time_of p) = trunc (rnd ((p - of_int \<lfloor>p\<rfloor>) * 1000))"
proof -
  define n where "n = \<lfloor>p\<rfloor>"
  from assms(2) have tp: "trunc p = n" by (simp add: trunc_def n_def)
  from assms(2) have n0: "0 \<le> n" by (simp add: n_def)
  from assms(3) have "p < of_int (2 ^ 48)" by simp
  then have n1: "n < 2 ^ 48" unfolding n_def by (simp only: floor_less_iff)
  show "seconds (seek_time_of p) = \<lfloor>p\<rfloor> mod 60"
    by (simp add: seek_time_of_def Let_def tp n_def)
  have "minutes (seek_time_of p) = trunc (float_mod (rnd (of_int n / 60)) 60)"
    by (simp add: seek_time_of_def Let_def tp)
  also have "\<dots> = n div 60 mod 60"
  proof (rule minutes_of_quotient)
    show "of_int (n div 60) \<le> rnd (of_int n / 60)" using n0 n1 by (rule quotient_by_60(1))
    show "rnd (of_int n / 60) < of_int (n div 60) + 1" using n0 n1 by (rule quotient_by_60(2))
    show "0 \<le> n div 60" using n0 by (simp add: pos_imp_zdiv_nonneg_iff)
  qed
  finally show "minutes (seek_time_of p) = \<lfloor>p\<rfloor> div 60 mod 60" by (simp only: n_def)
  have h: "hours (seek_time_of p) = trunc (rnd (rnd (of_int n / 60) / 60))"
    by (simp add: seek_time_of_def Let_def tp)
  have h0: "0 \<le> n div 3600" using n0 by (simp add: pos_imp_zdiv_nonneg_iff)
  have q: "of_int (n div 3600) \<le> rnd (rnd (of_int n / 60) / 60)"
    "rnd (rnd (of_int n / 60) / 60) < of_int (n div 3600) + 1"
    using n0 n1 by (rule quotient_by_3600)+
  from q have fl: "\<lfloor>rnd (rnd (of_int n / 60) / 60)\<rfloor> = n div 3600"
    by (intro floor_unique)
  from h0 have "(0 :: rat) \<le> of_int (n div 3600)" by (simp only: of_int_0_le_iff)
  with q(1) have "0 \<le> rnd (rnd (of_int n / 60) / 60)" by linarith
  then have "trunc (rnd (rnd (of_int n / 60) / 60)) = n div 3600"
    by (simp add: trunc_def fl)
  with h show "hours (seek_time_of p) = \<lfloor>p\<rfloor> div 3600" by (simp only: n_def)
  have "float_mod p 1 = p - of_int \<lfloor>p\<rfloor>"
    using float_mod_nonneg[OF assms(2), of 1] by simp
  then show "milliseconds (seek_time_of p) = trunc (rnd ((p - of_int \<lfloor>p\<rfloor>) * 1000))"
    by (simp add: seek_time_of_def Let_def)
qed

lemma media_seek_forwards:
  assumes "server k = Some h"
    and "reply ev (log w) h (Rpc ''Player.GetActivePlayers'' [] []) = Inr (PList (PDict kvs # ps))"
    and "map_of kvs ''playerid'' = Some pid"
  shows "media_seek ev k p w =
           (case reply ev (log w @ [Sent h (Rpc ''Player.GetActivePlayers'' [] [])]) h
                   (Rpc ''Player.Seek'' [pid, time_dict (seek_time_of p)] []) of
              Inl e \<Rightarrow> Inl (Lib e)
            | Inr v \<Rightarrow> Inr PNone,
            w\<lparr>log := log w @ [Sent h (Rpc ''Player.GetActivePlayers'' [] []),
                                Sent h (Rpc ''Player.Seek'' [pid, time_dict (seek_time_of p)] [])]\<rparr>)"
  using assms
  by (simp add: media_seek_def get_players_def invoke_def method_call_def bind_def
      with_first_player_def lift_def discard_def Let_def split: sum.splits)

lemma representable_example: "representable (14901 / 4)"
proof -
  have "\<bar>14901 :: int\<bar> < 2 ^ 53" by simp
  then have "rnd (of_int 14901 / 2 ^ 2) = of_int 14901 / 2 ^ 2" by (rule rnd_dyadic)
  then show ?thesis by (simp add: representable_def)
qed

text \<open>
  The rounding of the product is visible: the float written \<open>0.009\<close> lies below
  \<open>9 / 1000\<close>, and its product by 1000 rounds to \<open>9.0\<close>.
\<close>

lemma milliseconds_rounded_example:
  "representable (5188146770730811 / 2 ^ 59)
   \<and> (5188146770730811 / 2 ^ 59 :: rat) < 9 / 1000
   \<and> milliseconds (seek_time_of (5188146770730811 / 2 ^ 59)) = 9"
proof -
  have "\<bar>5188146770730811 :: int\<bar> < 2 ^ 53" by simp
  then have "rnd (of_int 5188146770730811 / 2 ^ 59) = of_int 5188146770730811 / 2 ^ 59"
    by (rule rnd_dyadic)
  then have "representable (5188146770730811 / 2 ^ 59)" by (simp add: representable_def)
  moreover have "(5188146770730811 / 2 ^ 59 :: rat) < 9 / 1000" by simp
  moreover have "milliseconds (seek_time_of (5188146770730811 / 2 ^ 59)) = 9" by code_simp
  ultimately show ?thesis by (intro conjI)
qed

text \<open>
  C9, as the code has it. For a float position \<open>p\<close> with \<open>0 \<le> p < 2 ^ 48\<close> the time object
  holds the base-60 digits of the whole seconds: \<open>seconds = \<lfloor>p\<rfloor> mod 60\<close>,
  \<open>minutes = \<lfloor>p\<rfloor> div 60 mod 60\<close>, \<open>hours = \<lfloor>p\<rfloor> div 60 div 60\<close>; the two float divisions by
  60 never disturb them. The milliseconds come from one rounded float product, so they
  are the whole part of \<open>1000 * (p - \<lfloor>p\<rfloor>)\<close> up to that rounding: never less, never more
  than 999, within a relative \<open>2 ^ -53\<close> above, and exact when the product is a whole
  number. With an active player the object is sent as the second argument of
  \<open>Player.Seek\<close>, after the player's id.
\<close>

theorem media_seek_decomposes_position:
  assumes "representable p" and "0 \<le> p" and "p < 2 ^ 48"
  shows "seconds (seek_time_of p) = \<lfloor>p\<rfloor> mod 60
       \<and> minutes (seek_time_of p) = \<lfloor>p\<rfloor> div 60 mod 60
       \<and> hours (seek_time_of p) = \<lfloor>p\<rfloor> div 60 div 60
       \<and> \<lfloor>(p - of_int \<lfloor>p\<rfloor>) * 1000\<rfloor> \<le> milliseconds (seek_time_of p)
       \<and> milliseconds (seek_time_of p) \<le> 999
       \<and> of_int (milliseconds (seek_time_of p)) \<le> (p - of_int \<lfloor>p\<rfloor>) * 1000 * (1 + 1 / 2 ^ 53)
       \<and> (\<forall>j. (p - of_int \<lfloor>p\<rfloor>) * 1000 = of_int j \<longrightarrow> milliseconds (seek_time_of p) = j)
       \<and> (\<forall>ev k w h kvs ps pid.
             server k = Some h
             \<longrightarrow> reply ev (log w) h (Rpc ''Player.GetActivePlayers'' [] [])
                 = Inr (PList (PDict kvs # ps))
             \<longrightarrow> map_of kvs ''playerid'' = Some pid
             \<longrightarrow> run ev k (MediaSeek p) w =
                   (case reply ev (log w @ [Sent h (Rpc ''Player.GetActivePlayers'' [] [])]) h
                           (Rpc ''Player.Seek'' [pid, time_dict (seek_time_of p)] []) of
                      Inl e \<Rightarrow> Inl (Lib e)
                    | Inr v \<Rightarrow> Inr PNone,
                    w\<lparr>log := log w @ [Sent h (Rpc ''Player.GetActivePlayers'' [] []),
                                        Sent h (Rpc ''Player.Seek''
                                                  [pid, time_dict (seek_time_of p)] [])]\<rparr>))"
proof -
  define f where "f = p - of_int \<lfloor>p\<rfloor>"
  have f0: "0 \<le> f" unfolding f_def by linarith
  have f1: "f \<le> 1 - 1 / 2 ^ 53" unfolding f_def using assms(1,2) by (rule frac_bound)
  note t = seek_time_of_nonneg[OF assms]
  have ms: "milliseconds (seek_time_of p) = trunc (rnd (f * 1000))"
    unfolding f_def by (rule t(4))
  have "\<lfloor>p\<rfloor> div 3600 = \<lfloor>p\<rfloor> div (60 * 60)" by simp
  also have "\<dots> = \<lfloor>p\<rfloor> div 60 div 60" by (rule zdiv_zmult2_eq) simp
  finally have h: "hours (seek_time_of p) = \<lfloor>p\<rfloor> div 60 div 60" by (simp only: t(3))
  have m1: "\<lfloor>f * 1000\<rfloor> \<le> milliseconds (seek_time_of p)"
    unfolding ms using f0 f1 by (rule milliseconds_of_fraction(1))
  have m2: "milliseconds (seek_time_of p) \<le> 999"
    unfolding ms using f0 f1 by (rule milliseconds_of_fraction(2))
  have m3: "of_int (milliseconds (seek_time_of p)) \<le> f * 1000 * (1 + 1 / 2 ^ 53)"
    unfolding ms using f0 f1 by (rule milliseconds_of_fraction(3))
  have m4: "\<forall>j. f * 1000 = of_int j \<longrightarrow> milliseconds (seek_time_of p) = j"
    unfolding ms using milliseconds_of_fraction(4)[OF f0 f1] by blast
  have fw: "\<forall>ev k w h kvs ps pid.
             server k = Some h
             \<longrightarrow> reply ev (log w) h (Rpc ''Player.GetActivePlayers'' [] [])
                 = Inr (PList (PDict kvs # ps))
             \<longrightarrow> map_of kvs ''playerid'' = Some pid
             \<longrightarrow> run ev k (MediaSeek p) w =
                   (case reply ev (log w @ [Sent h (Rpc ''Player.GetActivePlayers'' [] [])]) h
                           (Rpc ''Player.Seek'' [pid, time_dict (seek_time_of p)] []) of
                      Inl e \<Rightarrow> Inl (Lib e)
                    | Inr v \<Rightarrow> Inr PNone,
                    w\<lparr>log := log w @ [Sent h (Rpc ''Player.GetActivePlayers'' [] []),
                                        Sent h (Rpc ''Player.Seek''
                                                  [pid, time_dict (seek_time_of p)] [])]\<rparr>)"
    by (simp only: run.simps) (intro allI impI, rule media_seek_forwards)
  from t(1) t(2) h m1 m2 m3 m4 fw show ?thesis unfolding f_def by (intro conjI)
qed

text \<open>
  A negative position is not decomposed. For \<open>-3.5\<close> the milliseconds come from the
  floored remainder (\<open>-3.5 % 1 = 0.5\<close>), the seconds from the position truncated towards
  zero (\<open>-3 % 60 = 57\<close>), the minutes from \<open>-0.05 % 60 = 59.95\<close> and the hours from
  \<open>int(-0.05 / 60) = 0\<close>: the remote is asked to seek to 0:59:57.500, which is 3597.5
  seconds.
\<close>

theorem media_seek_negative_position_counterexample:
  "representable (- (7 / 2))
   \<and> seek_time_of (- (7 / 2)) = \<lparr>milliseconds = 500, seconds = 57, minutes = 59, hours = 0\<rparr>
   \<and> \<lfloor>- (7 / 2) :: rat\<rfloor> mod 60 = 56
   \<and> \<lfloor>- (7 / 2) :: rat\<rfloor> div 60 div 60 = - 1
   \<and> (of_int (hours (seek_time_of (- (7 / 2)))) * 3600
        + of_int (minutes (seek_time_of (- (7 / 2)))) * 60
        + of_int (seconds (seek_time_of (- (7 / 2))))
        + of_int (milliseconds (seek_time_of (- (7 / 2)))) / 1000 :: rat) = 7195 / 2
   \<and> run (answering (PList [PDict [(''playerid'', PInt 1)]])) example_client
         (MediaSeek (- (7 / 2))) empty_world =
       (Inr PNone,
        empty_world\<lparr>log :=
          [Sent 1 (Rpc ''Player.GetActivePlayers'' [] []),
           Sent 1 (Rpc ''Player.Seek''
                     [PInt 1,
                      PDict [(''milliseconds'', PInt 500), (''seconds'', PInt 57),
                             (''minutes'', PInt 59), (''hours'', PInt 0)]] [])]\<rparr>)"
proof -
  have r: "representable (- (7 / 2))"
  proof -
    have "\<bar>- 7 :: int\<bar> < 2 ^ 53" by simp
    then have "rnd (of_int (- 7) / 2 ^ 1) = of_int (- 7) / 2 ^ 1" by (rule rnd_dyadic)
    then show ?thesis by (simp add: representable_def)
  qed
  have s: "seek_time_of (- (7 / 2)) = \<lparr>milliseconds = 500, seconds = 57, minutes = 59, hours = 0\<rparr>"
    by code_simp
  have a: "\<lfloor>- (7 / 2) :: rat\<rfloor> = - 4" by (rule floor_unique) simp_all
  have g: "run (answering (PList [PDict [(''playerid'', PInt 1)]])) example_client
         (MediaSeek (- (7 / 2))) empty_world =
       (Inr PNone,
        empty_world\<lparr>log :=
          [Sent 1 (Rpc ''Player.GetActivePlayers'' [] []),
           Sent 1 (Rpc ''Player.Seek''
                     [PInt 1,
                      PDict [(''milliseconds'', PInt 500), (''seconds'', PInt 57),
                             (''minutes'', PInt 59), (''hours'', PInt 0)]] [])]\<rparr>)"
    using media_seek_forwards[of example_client 1 "answering (PList [PDict [(''playerid'', PInt 1)]])"
        empty_world "[(''playerid'', PInt 1)]" "[]" "PInt 1" "- 7 / 2"]
    by (simp add: example_client_def answering_def empty_world_def s time_dict_def)
  show ?thesis
    unfolding a by (intro conjI r s g) (simp_all add: s)
qed

theorem media_seek_decomposes_position_witness:
  "representable (14901 / 4) \<and> (0 :: rat) \<le> 14901 / 4 \<and> (14901 / 4 :: rat) < 2 ^ 48
   \<and> seek_time_of (14901 / 4) = \<lparr>milliseconds = 250, seconds = 5, minutes = 2, hours = 1\<rparr>
   \<and> run (answering (PList [PDict [(''playerid'', PInt 1)]])) example_client
         (MediaSeek (14901 / 4)) empty_world =
       (Inr PNone,
        empty_world\<lparr>log :=
          [Sent 1 (Rpc ''Player.GetActivePlayers'' [] []),
           Sent 1 (Rpc ''Player.Seek''
                     [PInt 1,
                      PDict [(''milliseconds'', PInt 250), (''seconds'', PInt 5),
                             (''minutes'', PInt 2), (''hours'', PInt 1)]] [])]\<rparr>)"
proof -
  have b: "(0 :: rat) \<le> 14901 / 4" "(14901 / 4 :: rat) < 2 ^ 48" by simp_all
  note T = media_seek_decomposes_position[OF representable_example b]
  have fl: "\<lfloor>14901 / 4 :: rat\<rfloor> = 3725" by (rule floor_unique) simp_all
  have fr: "((14901 / 4 :: rat) - of_int 3725) * 1000 = of_int 250" by simp
  from T[THEN conjunct1] have s: "seconds (seek_time_of (14901 / 4)) = 5"
    by (simp add: fl)
  from T[THEN conjunct2, THEN conjunct1] have m: "minutes (seek_time_of (14901 / 4)) = 2"
    by (simp add: fl)
  from T[THEN conjunct2, THEN conjunct2, THEN conjunct1]
  have h: "hours (seek_time_of (14901 / 4)) = 1"
    by (simp add: fl)
  from T[THEN conjunct2, THEN conjunct2, THEN conjunct2, THEN conjunct2, THEN conjunct2,
      THEN conjunct2, THEN conjunct1, THEN spec, of 250, unfolded fl, THEN mp, OF fr]
  have ms: "milliseconds (seek_time_of (14901 / 4)) = 250" .
  have t: "seek_time_of (14901 / 4) = \<lparr>milliseconds = 250, seconds = 5, minutes = 2, hours = 1\<rparr>"
    by (rule seek_time.equality) (simp_all add: s m h ms)
  have e1: "server example_client = Some 1" by (simp add: example_client_def)
  have e2: "reply (answering (PList [PDict [(''playerid'', PInt 1)]])) (log empty_world) 1
              (Rpc ''Player.GetActivePlayers'' [] [])
            = Inr (PList (PDict [(''playerid'', PInt 1)] # []))"
    by (simp add: answering_def)
  have e3: "map_of [(''playerid'', PInt 1)] ''playerid'' = Some (PInt 1)" by simp
  note F = T[THEN conjunct2, THEN conjunct2, THEN conjunct2, THEN conjunct2, THEN conjunct2,
      THEN conjunct2, THEN conjunct2, THEN spec, THEN spec, THEN spec, THEN spec, THEN spec,
      THEN spec, THEN spec, THEN mp, THEN mp, THEN mp, OF e1 e2 e3]
  have g: "run (answering (PList [PDict [(''playerid'', PInt 1)]])) example_client
         (MediaSeek (14901 / 4)) empty_world =
       (Inr PNone,
        empty_world\<lparr>log :=
          [Sent 1 (Rpc ''Player.GetActivePlayers'' [] []),
           Sent 1 (Rpc ''Player.Seek''
                     [PInt 1,
                      PDict [(''milliseconds'', PInt 250), (''seconds'', PInt 5),
                             (''minutes'', PInt 2), (''hours'', PInt 1)]] [])]\<rparr>)"
    unfolding F by (simp add: answering_def empty_world_def t time_dict_def)
  show ?thesis by (intro conjI representable_example b t g)
qed

end
